theory Spec2Isabelle
  imports Complex_Main "HOL-Library.Char_ord" "HOL-Library.List_Lexorder"
begin

section \<open>JavaScript strings\<close>

text \<open>
  A JavaScript string is modelled as a \<^typ>\<open>string\<close>: one \<^typ>\<open>char\<close> per code unit,
  for the code units below 256. The helpers below are the \<open>String.prototype\<close> methods
  the sources call, on that range.
\<close>

definition isWhiteSpace :: "char \<Rightarrow> bool" where
  \<comment> \<open>WhiteSpace and LineTerminator code points below 256: TAB, LF, VT, FF, CR, SP, NBSP.\<close>
  "isWhiteSpace c = (of_char c \<in> {9, 10, 11, 12, 13, 32, 160 :: nat})"

definition trim :: "string \<Rightarrow> string" where
  "trim s = rev (dropWhile isWhiteSpace (rev (dropWhile isWhiteSpace s)))"

definition startsWith :: "string \<Rightarrow> string \<Rightarrow> bool" where
  "startsWith s p = (take (length p) s = p)"

fun joinWith :: "string \<Rightarrow> string list \<Rightarrow> string" where
  "joinWith sep [] = []"
| "joinWith sep [x] = x"
| "joinWith sep (x # y # ys) = x @ sep @ joinWith sep (y # ys)"

definition countChar :: "char \<Rightarrow> string \<Rightarrow> nat" where
  "countChar c s = length (filter (\<lambda>x. x = c) s)"

fun replaceFirst :: "string \<Rightarrow> string \<Rightarrow> string \<Rightarrow> string" where
  \<comment> \<open>\<open>s.replace(pat, rep)\<close> with a string pattern: the first occurrence only\<close>
  "replaceFirst pat rep [] = (if pat = [] then rep else [])"
| "replaceFirst pat rep (c # cs) =
     (if startsWith (c # cs) pat then rep @ drop (length pat) (c # cs)
      else c # replaceFirst pat rep cs)"

definition toLowerChar :: "char \<Rightarrow> char" where
  \<comment> \<open>A-Z, and the upper-case letters of Latin-1 (all of 0xC0..0xDE but the sign 0xD7)\<close>
  "toLowerChar c =
     (let n = (of_char c :: nat)
      in if (65 \<le> n \<and> n \<le> 90) \<or> (192 \<le> n \<and> n \<le> 222 \<and> n \<noteq> 215)
         then char_of (n + 32) else c)"

definition toLowerCase :: "string \<Rightarrow> string" where
  "toLowerCase s = map toLowerChar s"

definition digitChar :: "nat \<Rightarrow> char" where
  "digitChar d = char_of (48 + d)"

function showNat :: "nat \<Rightarrow> string" where
  \<comment> \<open>a non-negative integer in a template literal: its decimal digits\<close>
  "showNat n = (if n < 10 then [digitChar n] else showNat (n div 10) @ [digitChar (n mod 10)])"
  by pat_completeness auto
termination
  by (relation "measure (\<lambda>n. n)") auto

declare showNat.simps [simp del]

section \<open>JavaScript values\<close>

text \<open>
  The values that cross the bridge are JSON values. An object is the list of its own
  enumerable properties in the order in which JavaScript enumerates them: the keys that
  are array indices first, in ascending numeric order, then the other keys in the order
  of their creation. Keys are distinct.
\<close>

datatype json =
    JNull
  | JBool bool
  | JNum real
  | JStr string
  | JArr "json list"
  | JObj "(string \<times> json) list"

type_synonym object = "(string \<times> json) list"

fun truthy :: "json \<Rightarrow> bool" where
  "truthy JNull = False"
| "truthy (JBool b) = b"
| "truthy (JNum n) = (n \<noteq> 0)"
| "truthy (JStr s) = (s \<noteq> [])"
| "truthy (JArr xs) = True"
| "truthy (JObj kvs) = True"

fun getProp :: "json \<Rightarrow> string \<Rightarrow> json option" where
  \<comment> \<open>\<open>v?.k\<close> for the keys the sources read; \<open>None\<close> is \<open>undefined\<close>\<close>
  "getProp (JObj kvs) k = map_of kvs k"
| "getProp v k = None"

definition isDigit :: "char \<Rightarrow> bool" where
  "isDigit c = (48 \<le> (of_char c :: nat) \<and> (of_char c :: nat) \<le> 57)"

definition readNat :: "string \<Rightarrow> int" where
  \<comment> \<open>the number that a string of decimal digits writes\<close>
  "readNat s = foldl (\<lambda>n c. 10 * n + (of_char c - 48)) 0 s"

definition isArrayIndex :: "string \<Rightarrow> bool" where
  \<comment> \<open>a canonical numeric string below \<open>2^32 - 1\<close>\<close>
  "isArrayIndex k =
     (k \<noteq> [] \<and> list_all isDigit k \<and> (k = ''0'' \<or> hd k \<noteq> CHR ''0'') \<and> readNat k \<le> 4294967294)"

fun updateProp :: "string \<Rightarrow> json \<Rightarrow> object \<Rightarrow> object" where
  \<comment> \<open>an existing key keeps its place\<close>
  "updateProp k v [] = []"
| "updateProp k v ((k', v') # kvs) =
     (if k = k' then (k, v) # kvs else (k', v') # updateProp k v kvs)"

fun insertProp :: "string \<Rightarrow> json \<Rightarrow> object \<Rightarrow> object" where
  \<comment> \<open>a new key: an array index goes before the first key that is no array index or is a
      greater one, any other key goes last\<close>
  "insertProp k v [] = [(k, v)]"
| "insertProp k v ((k', v') # kvs) =
     (if isArrayIndex k \<and> (if isArrayIndex k' then readNat k < readNat k' else True)
      then (k, v) # (k', v') # kvs
      else (k', v') # insertProp k v kvs)"

definition defineProp :: "string \<Rightarrow> json \<Rightarrow> object \<Rightarrow> object" where
  \<comment> \<open>an own data property is created or overwritten, as a spread and an object literal do\<close>
  "defineProp k v obj = (if k \<in> set (map fst obj) then updateProp k v obj else insertProp k v obj)"

definition assign :: "string \<Rightarrow> json \<Rightarrow> object \<Rightarrow> object" where
  \<comment> \<open>\<open>obj[k] = v\<close> on a plain object: the key \<open>__proto__\<close> reaches the setter of the
      prototype and creates no own property\<close>
  "assign k v obj = (if k = ''__proto__'' then obj else defineProp k v obj)"

definition spread :: "object \<Rightarrow> object \<Rightarrow> object" where
  \<comment> \<open>\<open>{...obj, ...src}\<close>: the properties of \<open>src\<close> defined in order\<close>
  "spread obj src = foldl (\<lambda>acc (k, v). defineProp k v acc) obj src"

fun indexed :: "nat \<Rightarrow> json list \<Rightarrow> object" where
  "indexed i [] = []"
| "indexed i (x # xs) = (showNat i, x) # indexed (Suc i) xs"

fun ownEntries :: "json \<Rightarrow> object" where
  \<comment> \<open>the own enumerable properties that a spread copies\<close>
  "ownEntries (JObj kvs) = kvs"
| "ownEntries (JArr xs) = indexed 0 xs"
| "ownEntries (JStr s) = indexed 0 (map (\<lambda>c. JStr [c]) s)"
| "ownEntries v = []"

section \<open>CSP policy builder (MCPAppsRenderer.tsx)\<close>

record WidgetDeclaredCsp =
  connectDomains :: "string list option"
  resourceDomains :: "string list option"
  frameDomains :: "string list option"
  baseUriDomains :: "string list option"

definition strippedChars :: "char set" where
  \<comment> \<open>the character class of the regular expression in \<open>sanitize\<close>: ' " < > ;\<close>
  "strippedChars = {CHR 0x27, CHR 0x22, CHR ''<'', CHR ''>'', CHR '';''}"

definition sanitize :: "string \<Rightarrow> string" where
  "sanitize d = trim (filter (\<lambda>c. c \<notin> strippedChars) d)"

definition cleanDomains :: "string list option \<Rightarrow> string list" where
  \<comment> \<open>\<open>(csp.xDomains || []).map(sanitize).filter(Boolean)\<close>\<close>
  "cleanDomains ds = filter (\<lambda>t. t \<noteq> []) (map sanitize (case ds of None \<Rightarrow> [] | Some l \<Rightarrow> l))"

definition none_kw :: string where
  "none_kw = CHR 0x27 # ''none'' @ [CHR 0x27]"

definition unsafe_inline_kw :: string where
  "unsafe_inline_kw = CHR 0x27 # ''unsafe-inline'' @ [CHR 0x27]"

definition connectSrc :: "WidgetDeclaredCsp \<Rightarrow> string" where
  "connectSrc csp =
     (let cd = cleanDomains (connectDomains csp)
      in if length cd > 0 then joinWith '' '' cd else none_kw)"

definition resourceSrc :: "WidgetDeclaredCsp \<Rightarrow> string" where
  "resourceSrc csp =
     (let rd = cleanDomains (resourceDomains csp)
      in if length rd > 0 then joinWith '' '' ([''data:'', ''blob:''] @ rd) else ''data: blob:'')"

definition frameSrc :: "WidgetDeclaredCsp \<Rightarrow> string" where
  "frameSrc csp =
     (let fd = cleanDomains (frameDomains csp)
      in if length fd > 0 then joinWith '' '' fd else none_kw)"

definition baseUri :: "WidgetDeclaredCsp \<Rightarrow> string" where
  "baseUri csp =
     (let bd = cleanDomains (baseUriDomains csp)
      in if length bd > 0 then joinWith '' '' bd else none_kw)"

definition cspDirectives :: "WidgetDeclaredCsp \<Rightarrow> string list" where
  \<comment> \<open>the array literal that \<open>buildCSPString\<close> joins\<close>
  "cspDirectives csp =
     [ ''default-src '' @ none_kw,
       ''script-src '' @ unsafe_inline_kw @ '' '' @ resourceSrc csp,
       ''style-src '' @ unsafe_inline_kw @ '' '' @ resourceSrc csp,
       ''img-src '' @ resourceSrc csp,
       ''font-src '' @ resourceSrc csp,
       ''media-src '' @ resourceSrc csp,
       ''connect-src '' @ connectSrc csp,
       ''frame-src '' @ frameSrc csp,
       ''object-src '' @ none_kw,
       ''base-uri '' @ baseUri csp ]"

definition buildCSPString :: "WidgetDeclaredCsp \<Rightarrow> string" where
  "buildCSPString csp = joinWith ''; '' (cspDirectives csp)"

section \<open>Data push effects (MCPAppsRenderer.tsx)\<close>

text \<open>
  \<open>JSON.parse\<close> and \<open>JSON.stringify\<close> belong to the runtime: they are parameters
  (\<open>jsonParse\<close> returns \<open>None\<close> where \<open>JSON.parse\<close> throws).
\<close>

record props =
  toolCallId :: string
  toolInput :: "object option"
  toolOutput :: "json option"
  partialToolInput :: "object option"
  customProps :: "(string \<times> string) list option"

datatype message =
    ToolInput object
  | ToolInputPartial object
  | ToolResult json
  | ToolCancelled string

definition parseValue :: "(string \<Rightarrow> json option) \<Rightarrow> string \<Rightarrow> json" where
  "parseValue jsonParse v =
     (if startsWith (trim v) ''['' \<or> startsWith (trim v) ''{''
      then (case jsonParse v of Some j \<Rightarrow> j | None \<Rightarrow> JStr v)
      else JStr v)"

definition parseCustomProps :: "(string \<Rightarrow> json option) \<Rightarrow> (string \<times> string) list \<Rightarrow> object" where
  \<comment> \<open>the loop over \<open>Object.entries(customProps)\<close> that fills \<open>parsed\<close>\<close>
  "parseCustomProps jsonParse cp = foldl (\<lambda>acc (k, v). assign k (parseValue jsonParse v) acc) [] cp"

definition mergedArgs ::
  "(string \<Rightarrow> json option) \<Rightarrow> object option \<Rightarrow> (string \<times> string) list option \<Rightarrow> object" where
  \<comment> \<open>\<open>{ ...toolInput, ...parsedCustomProps }\<close>\<close>
  "mergedArgs jsonParse ti cp =
     spread (spread [] (case ti of None \<Rightarrow> [] | Some obj \<Rightarrow> obj))
       (case cp of None \<Rightarrow> [] | Some c \<Rightarrow> parseCustomProps jsonParse c)"

record pushState =
  bridgeRef :: bool
  toolInputSentRef :: "string option"
  lastSentPropsRef :: "string option"
  lastSentToolOutputKeyRef :: "string option"
  pendingFrame :: "(object \<times> string \<times> string) option"
  outbox :: "message list"

definition sentKeyOf :: "string \<Rightarrow> nat \<Rightarrow> string" where
  \<comment> \<open>the template literal \<open>toolCallId:initCount\<close>\<close>
  "sentKeyOf tid ic = tid @ '':'' @ showNat ic"

definition sendToolInputPartialEffect :: "props \<Rightarrow> nat \<Rightarrow> pushState \<Rightarrow> pushState" where
  "sendToolInputPartialEffect p ic s =
     (if \<not> bridgeRef s \<or> ic = 0 then s
      else case partialToolInput p of
             None \<Rightarrow> s
           | Some partial \<Rightarrow> s\<lparr>outbox := outbox s @ [ToolInputPartial partial]\<rparr>)"

definition sendToolInputEffect ::
  "(json \<Rightarrow> string) \<Rightarrow> (string \<Rightarrow> json option) \<Rightarrow> props \<Rightarrow> nat \<Rightarrow> pushState \<Rightarrow> pushState" where
  "sendToolInputEffect stringify jsonParse p ic s =
     (if \<not> bridgeRef s \<or> ic = 0 then s
      else
        let merged = mergedArgs jsonParse (toolInput p) (customProps p);
            propsKey = stringify (JObj merged);
            sentKey = sentKeyOf (toolCallId p) ic
        in if toolInputSentRef s = Some sentKey \<and> lastSentPropsRef s = Some propsKey then s
           else if partialToolInput p \<noteq> None
             then s\<lparr>pendingFrame := Some (merged, sentKey, propsKey)\<rparr>
             else s\<lparr>outbox := outbox s @ [ToolInput merged],
                    toolInputSentRef := Some sentKey,
                    lastSentPropsRef := Some propsKey\<rparr>)"

definition cancelAnimationFrame :: "pushState \<Rightarrow> pushState" where
  \<comment> \<open>the cleanup the effect returns on its deferred path; it runs before the effect runs again\<close>
  "cancelAnimationFrame s = s\<lparr>pendingFrame := None\<rparr>"

definition animationFrame :: "pushState \<Rightarrow> pushState" where
  \<comment> \<open>the browser runs the callback passed to \<open>requestAnimationFrame\<close>\<close>
  "animationFrame s =
     (case pendingFrame s of
        None \<Rightarrow> s
      | Some (merged, sentKey, propsKey) \<Rightarrow>
          s\<lparr>outbox := outbox s @ [ToolInput merged],
            toolInputSentRef := Some sentKey,
            lastSentPropsRef := Some propsKey,
            pendingFrame := None\<rparr>)"

definition outputContent :: "json \<Rightarrow> json" where
  \<comment> \<open>\<open>toolOutput?.structuredContent ?? toolOutput\<close>\<close>
  "outputContent out =
     (case getProp out ''structuredContent'' of
        None \<Rightarrow> out
      | Some JNull \<Rightarrow> out
      | Some v \<Rightarrow> v)"

definition contentKeyOf :: "(json \<Rightarrow> string) \<Rightarrow> json \<Rightarrow> (string \<times> string) list option \<Rightarrow> string" where
  "contentKeyOf stringify out cp =
     stringify (JObj [(''content'', outputContent out),
                      (''customProps'',
                         case cp of None \<Rightarrow> JNull
                                  | Some c \<Rightarrow> JObj (map (\<lambda>(k, v). (k, JStr v)) c))])"

definition sendToolResultEffect ::
  "(json \<Rightarrow> string) \<Rightarrow> (string \<Rightarrow> json option) \<Rightarrow> props \<Rightarrow> nat \<Rightarrow> pushState \<Rightarrow> pushState" where
  "sendToolResultEffect stringify jsonParse p ic s =
     (if \<not> bridgeRef s \<or> ic = 0 then s
      else case toolOutput p of
        None \<Rightarrow> s
      | Some out \<Rightarrow>
          if \<not> truthy out then s
          else
            let contentKey = contentKeyOf stringify out (customProps p)
            in if lastSentToolOutputKeyRef s = Some contentKey then s
               else
                 let s' = s\<lparr>lastSentToolOutputKeyRef := Some contentKey\<rparr>
                 in case customProps p of
                      None \<Rightarrow> s'\<lparr>outbox := outbox s' @ [ToolResult out]\<rparr>
                    | Some cp \<Rightarrow>
                        if length cp > 0
                        then s'\<lparr>outbox := outbox s' @
                                 [ToolResult (JObj (defineProp ''structuredContent''
                                    (JObj (parseCustomProps jsonParse cp))
                                    (spread [] (ownEntries out))))]\<rparr>
                        else s'\<lparr>outbox := outbox s' @ [ToolResult out]\<rparr>)"

section \<open>Re-initialisation debounce and teardown (MCPAppsRenderer.tsx)\<close>

text \<open>
  Time is the value of \<open>Date.now()\<close>, in milliseconds. A pending \<open>setTimeout\<close> is the
  time at which it is due; a timeout that is due at or before the time of an event has
  run when the event is handled.
\<close>

datatype teardownReply = Resolves nat | Rejects nat | NeverSettles

datatype action =
    Send message
  | ClearResendTimer
  | RemoveMessageListener
  | TeardownResource
  | CloseBridge

datatype event = Initialized | Render props | Unmount teardownReply

record host =
  initCount :: nat
  lastInitTimeRef :: int
  resendTimerRef :: "int option"
  toolInputRef :: "object option"
  toolOutputRef :: "json option"
  customPropsRef :: "(string \<times> string) list option"
  listening :: bool
  closeDue :: "int option"
  journal :: "(int \<times> action) list"

definition mounted :: "props \<Rightarrow> host" where
  \<comment> \<open>the bridge has just been created: \<open>setInitCount(0)\<close>, the listener is attached\<close>
  "mounted p =
     \<lparr>initCount = 0, lastInitTimeRef = 0, resendTimerRef = None,
      toolInputRef = toolInput p, toolOutputRef = toolOutput p, customPropsRef = customProps p,
      listening = True, closeDue = None, journal = []\<rparr>"

definition resendCallback :: "(string \<Rightarrow> json option) \<Rightarrow> int \<Rightarrow> host \<Rightarrow> host" where
  \<comment> \<open>the function armed by \<open>setTimeout\<close> in \<open>oninitialized\<close>, run at time \<open>t\<close>\<close>
  "resendCallback jsonParse t s =
     s\<lparr>journal := journal s
          @ [(t, Send (ToolInput (mergedArgs jsonParse (toolInputRef s) (customPropsRef s))))]
          @ (case toolOutputRef s of
               None \<Rightarrow> []
             | Some out \<Rightarrow> if truthy out then [(t, Send (ToolResult out))] else [])\<rparr>"

definition oninitialized :: "int \<Rightarrow> host \<Rightarrow> host" where
  "oninitialized now s =
     (if lastInitTimeRef s > 0 \<and> now - lastInitTimeRef s < 2000
      then s\<lparr>resendTimerRef := Some (now + 300)\<rparr>
      else s\<lparr>lastInitTimeRef := now, initCount := initCount s + 1\<rparr>)"

definition TEARDOWN_TIMEOUT :: nat where
  "TEARDOWN_TIMEOUT = 2000"

definition raceSettles :: "teardownReply \<Rightarrow> nat" where
  \<comment> \<open>when \<open>Promise.race([bridge.teardownResource({}), timeout])\<close> settles, after the call\<close>
  "raceSettles r =
     (case r of
        Resolves d \<Rightarrow> min d TEARDOWN_TIMEOUT
      | Rejects d \<Rightarrow> min d TEARDOWN_TIMEOUT
      | NeverSettles \<Rightarrow> TEARDOWN_TIMEOUT)"

definition cleanup :: "int \<Rightarrow> teardownReply \<Rightarrow> host \<Rightarrow> host" where
  \<comment> \<open>the function the bridge effect returns; \<open>catch\<close> swallows a rejection of the race,
      and \<open>finally\<close> closes the bridge once the race has settled\<close>
  "cleanup t r s =
     s\<lparr>lastInitTimeRef := 0,
       resendTimerRef := None,
       listening := False,
       closeDue := Some (t + int (raceSettles r)),
       journal := journal s @ [(t, ClearResendTimer), (t, RemoveMessageListener), (t, TeardownResource)]\<rparr>"

definition advance :: "(string \<Rightarrow> json option) \<Rightarrow> int \<Rightarrow> host \<Rightarrow> host" where
  \<comment> \<open>the clock reaches \<open>t\<close>: the timeouts that are due run\<close>
  "advance jsonParse t s =
     (let s1 = (case resendTimerRef s of
                  None \<Rightarrow> s
                | Some due \<Rightarrow>
                    if due \<le> t then (resendCallback jsonParse due s)\<lparr>resendTimerRef := None\<rparr> else s)
      in case closeDue s1 of
           None \<Rightarrow> s1
         | Some due \<Rightarrow>
             if due \<le> t then s1\<lparr>closeDue := None, journal := journal s1 @ [(due, CloseBridge)]\<rparr>
             else s1)"

fun handle :: "(string \<Rightarrow> json option) \<Rightarrow> host \<Rightarrow> int \<times> event \<Rightarrow> host" where
  \<comment> \<open>the bridge hears the guest through the window listener only: once the listener is
      removed, an announcement reaches no handler\<close>
  "handle jsonParse s (t, Initialized) =
     (let s' = advance jsonParse t s in if listening s' then oninitialized t s' else s')"
| "handle jsonParse s (t, Render p) =
     (advance jsonParse t s)\<lparr>toolInputRef := toolInput p, toolOutputRef := toolOutput p,
                             customPropsRef := customProps p\<rparr>"
| "handle jsonParse s (t, Unmount r) = cleanup t r (advance jsonParse t s)"

definition run :: "(string \<Rightarrow> json option) \<Rightarrow> (int \<times> event) list \<Rightarrow> host \<Rightarrow> host" where
  "run jsonParse evs s = foldl (handle jsonParse) s evs"

text \<open>
  The arrival times of a sequence of announcements: \<open>apart\<close> when each comes more than
  2000 ms after the one before; \<open>coalesced t0 prev\<close> when each comes less than 300 ms
  after the one before (\<open>prev\<close> for the first) and less than 2000 ms after \<open>t0\<close>.
\<close>

fun apart :: "int list \<Rightarrow> bool" where
  "apart (t # u # us) = (u - t > 2000 \<and> apart (u # us))"
| "apart ts = True"


definition announcements :: "int list \<Rightarrow> (int \<times> event) list" where
  "announcements ts = map (\<lambda>t. (t, Initialized)) ts"

fun isSend :: "action \<Rightarrow> bool" where
  "isSend (Send m) = True"
| "isSend a = False"

definition sends :: "(int \<times> action) list \<Rightarrow> (int \<times> action) list" where
  "sends j = filter (\<lambda>(t, a). isSend a) j"

section \<open>Inbound window messages (MCPAppsRenderer.tsx)\<close>

text \<open>
  \<open>new URL(u).origin\<close> belongs to the browser: it is the parameter \<open>urlOrigin\<close>,
  \<open>None\<close> where the constructor throws. A window is named by a number.
\<close>

datatype jsError = TypeError

record messageEvent =
  origin :: string
  source :: nat
  data :: "json option"

record frame =
  iframeSrc :: string
  contentWindow :: nat
  embedded :: bool
  onmessageSet :: bool
  frameToolCallId :: string
  frameResourceUri :: string

record errorReport =
  reportType :: string
  reportSource :: string
  reportMessage :: string
  reportStack :: "string option"
  reportTimestamp :: int
  reportToolId :: string
  reportUrl :: string

record rpcLogEntry =
  logServerId :: string
  logDirection :: string
  logTimestamp :: int
  logMessage :: "json option"

record page =
  rpcLog :: "rpcLogEntry list"
  bridgeInbox :: "json list"
  parentPosts :: "errorReport list"

definition dataProp :: "json option \<Rightarrow> string \<Rightarrow> json option" where
  \<comment> \<open>\<open>event.data?.k\<close>\<close>
  "dataProp d k = (case d of None \<Rightarrow> None | Some j \<Rightarrow> getProp j k)"

definition consoleErrorReport :: "frame \<Rightarrow> int \<Rightarrow> json option \<Rightarrow> errorReport" where
  "consoleErrorReport fr now d =
     (let args = (case dataProp d ''args'' of Some (JArr xs) \<Rightarrow> xs | _ \<Rightarrow> []);
          first = (case args of [] \<Rightarrow> None | x # _ \<Rightarrow> Some x);
          msg = (case first of
                   Some (JStr m) \<Rightarrow> m
                 | _ \<Rightarrow> (case dataProp first ''message'' of
                           Some (JStr m) \<Rightarrow> m
                         | _ \<Rightarrow> ''MCP Apps iframe runtime error''));
          stack = (case dataProp (dataProp first ''error'') ''stack'' of
                     Some (JStr st) \<Rightarrow> Some st
                   | _ \<Rightarrow> (case dataProp first ''stack'' of
                             Some (JStr st) \<Rightarrow> Some st
                           | _ \<Rightarrow> None))
      in \<lparr>reportType = ''mcp-inspector:widget:error'',
          reportSource = ''mcp-apps:iframe-console:error'',
          reportMessage = msg,
          reportStack = stack,
          reportTimestamp = now,
          reportToolId = frameToolCallId fr,
          reportUrl = (case dataProp d ''url'' of Some (JStr u) \<Rightarrow> u | _ \<Rightarrow> frameResourceUri fr)\<rparr>)"

definition handleMessage ::
  "(string \<Rightarrow> string option) \<Rightarrow> frame \<Rightarrow> int \<Rightarrow> messageEvent \<Rightarrow> page \<Rightarrow> jsError + page" where
  "handleMessage urlOrigin fr now ev s =
     (case urlOrigin (iframeSrc fr) of
        None \<Rightarrow> Inl TypeError
      | Some proxyOrigin \<Rightarrow>
          if origin ev \<noteq> proxyOrigin then Inr s
          else if source ev \<noteq> contentWindow fr then Inr s
          else if dataProp (data ev) ''type'' = Some (JStr ''iframe-console-log'') then
            (if dataProp (data ev) ''level'' = Some (JStr ''error'') \<and> embedded fr
             then Inr (s\<lparr>parentPosts := parentPosts s @ [consoleErrorReport fr now (data ev)]\<rparr>)
             else Inr s)
          else
            let s' = s\<lparr>rpcLog := rpcLog s @
                        [\<lparr>logServerId = ''widget-'' @ frameToolCallId fr,
                          logDirection = ''receive'',
                          logTimestamp = now,
                          logMessage = data ev\<rparr>]\<rparr>
            in case data ev of
                 None \<Rightarrow> Inr s'
               | Some d \<Rightarrow>
                   if onmessageSet fr \<and> truthy d
                   then Inr (s'\<lparr>bridgeInbox := bridgeInbox s' @ [d]\<rparr>)
                   else Inr s')"

section \<open>Suggested CSP fix and the prompt for agents (debug controls)\<close>

record CspViolation =
  directive :: "string option"
  effectiveDirective :: "string option"
  blockedUri :: "string option"

record fixSets =
  connectSet :: "string list"
  resourceSet :: "string list"
  frameSet :: "string list"

record suggestedFix =
  fixConnectDomains :: "string list"
  fixResourceDomains :: "string list"
  fixFrameDomains :: "string list option"

definition orEmpty :: "string option \<Rightarrow> string" where
  \<comment> \<open>\<open>x || ""\<close>\<close>
  "orEmpty x = (case x of None \<Rightarrow> [] | Some v \<Rightarrow> v)"

definition orNil :: "string list option \<Rightarrow> string list" where
  \<comment> \<open>\<open>xs ?? []\<close>\<close>
  "orNil x = (case x of None \<Rightarrow> [] | Some l \<Rightarrow> l)"

definition setAdd :: "string \<Rightarrow> string list \<Rightarrow> string list" where
  \<comment> \<open>\<open>Set.prototype.add\<close>, the set kept as the list of its members in insertion order\<close>
  "setAdd x xs = (if x \<in> set xs then xs else xs @ [x])"

definition newSet :: "string list \<Rightarrow> string list" where
  "newSet xs = foldl (\<lambda>acc x. setAdd x acc) [] xs"

definition RESOURCE_DIRECTIVES :: "string list" where
  "RESOURCE_DIRECTIVES = [''script-src'', ''style-src'', ''img-src'', ''font-src'', ''media-src'']"

definition CONNECT_DIRECTIVE :: string where
  "CONNECT_DIRECTIVE = ''connect-src''"

definition FRAME_DIRECTIVE :: string where
  "FRAME_DIRECTIVE = ''frame-src''"

definition violationDir :: "CspViolation \<Rightarrow> string" where
  \<comment> \<open>\<open>v.effectiveDirective || v.directive || ""\<close>\<close>
  "violationDir v =
     (case effectiveDirective v of
        None \<Rightarrow> orEmpty (directive v)
      | Some e \<Rightarrow> if e \<noteq> [] then e else orEmpty (directive v))"

definition addViolation :: "(string \<Rightarrow> string option) \<Rightarrow> fixSets \<Rightarrow> CspViolation \<Rightarrow> fixSets" where
  \<comment> \<open>one turn of the loop over the violations\<close>
  "addViolation urlOrigin acc v =
     (let uri = trim (orEmpty (blockedUri v))
      in if uri = [] \<or> uri = ''(inline)'' \<or> startsWith uri ''blob:'' \<or> startsWith uri ''data:''
         then acc
         else case urlOrigin uri of
           None \<Rightarrow> acc
         | Some org \<Rightarrow>
             if org = [] then acc
             else
               let dir = toLowerCase (violationDir v)
               in if dir = CONNECT_DIRECTIVE then
                    (let acc1 = acc\<lparr>connectSet := setAdd org (connectSet acc)\<rparr>
                     in if startsWith org ''http://''
                        then acc1\<lparr>connectSet :=
                               setAdd (replaceFirst ''http://'' ''ws://'' org) (connectSet acc1)\<rparr>
                        else if startsWith org ''https://''
                        then acc1\<lparr>connectSet :=
                               setAdd (replaceFirst ''https://'' ''wss://'' org) (connectSet acc1)\<rparr>
                        else acc1)
                  else if dir \<in> set RESOURCE_DIRECTIVES
                  then acc\<lparr>resourceSet := setAdd org (resourceSet acc)\<rparr>
                  else if dir = FRAME_DIRECTIVE
                  then acc\<lparr>frameSet := setAdd org (frameSet acc)\<rparr>
                  else acc)"

definition distinctSets :: "fixSets \<Rightarrow> bool" where
  \<comment> \<open>the three lists stand for sets: no member twice\<close>
  "distinctSets a = (distinct (connectSet a) \<and> distinct (resourceSet a) \<and> distinct (frameSet a))"

definition computeSuggestedFix ::
  "(string \<Rightarrow> string option) \<Rightarrow> CspViolation list \<Rightarrow> WidgetDeclaredCsp option \<Rightarrow> suggestedFix" where
  "computeSuggestedFix urlOrigin violations currentDeclared =
     (let start =
            \<lparr>connectSet = newSet (case currentDeclared of None \<Rightarrow> [] | Some c \<Rightarrow> orNil (connectDomains c)),
             resourceSet = newSet (case currentDeclared of None \<Rightarrow> [] | Some c \<Rightarrow> orNil (resourceDomains c)),
             frameSet = newSet (case currentDeclared of None \<Rightarrow> [] | Some c \<Rightarrow> orNil (frameDomains c))\<rparr>;
          fin = foldl (addViolation urlOrigin) start violations
      in \<lparr>fixConnectDomains = sort (connectSet fin),
          fixResourceDomains = sort (resourceSet fin),
          fixFrameDomains = (if length (frameSet fin) > 0 then Some (sort (frameSet fin)) else None)\<rparr>)"

definition MCP_APPS_CSP_SPEC_URL :: string where
  "MCP_APPS_CSP_SPEC_URL =
     ''https://raw.githubusercontent.com/modelcontextprotocol/ext-apps/bcfffb6585ea4fb1e3a9da39fb8911b83399fa71/specification/2026-01-26/apps.mdx''"

definition MCP_USE_CSP_DOCS_URL :: string where
  "MCP_USE_CSP_DOCS_URL = ''https://mcp-use.com/docs/typescript/server/csp''"

definition violationLine :: "CspViolation \<Rightarrow> string" where
  \<comment> \<open>an absent directive prints as \<open>undefined\<close> in the template literal\<close>
  "violationLine v =
     (let fallback = (case directive v of None \<Rightarrow> ''undefined'' | Some d \<Rightarrow> d);
          dir = (case effectiveDirective v of
                   None \<Rightarrow> fallback
                 | Some e \<Rightarrow> if e \<noteq> [] then e else fallback);
          uri = (case blockedUri v of
                   None \<Rightarrow> ''(inline)''
                 | Some u \<Rightarrow> if u \<noteq> [] then u else ''(inline)'')
      in ''- '' @ dir @ '': '' @ uri)"

definition jsonStrings :: "string list \<Rightarrow> json" where
  "jsonStrings xs = JArr (map JStr xs)"

definition buildAgentCspPrompt ::
  "(json \<Rightarrow> string) \<Rightarrow> (json \<Rightarrow> string) \<Rightarrow> WidgetDeclaredCsp option \<Rightarrow> string option \<Rightarrow>
   CspViolation list \<Rightarrow> suggestedFix option \<Rightarrow> string" where
  \<comment> \<open>\<open>stringify\<close> is \<open>JSON.stringify(v)\<close>, \<open>stringify2\<close> is \<open>JSON.stringify(v, null, 2)\<close>\<close>
  "buildAgentCspPrompt stringify stringify2 declaredCsp effectivePolicy violations fix =
     joinWith [CHR 0x0A]
       ([''Fix the Content Security Policy (CSP) for this MCP Apps widget. The widget has CSP violations that block network requests and resources.'',
         [],
         ''**References:**'',
         ''- MCP Apps CSP spec: '' @ MCP_APPS_CSP_SPEC_URL,
         ''- mcp-use CSP docs: '' @ MCP_USE_CSP_DOCS_URL,
         []]
        @ [''**Current declared CSP:**'']
        @ (case declaredCsp of
             Some c \<Rightarrow>
               [''connectDomains: '' @ stringify (jsonStrings (orNil (connectDomains c))),
                ''resourceDomains: '' @ stringify (jsonStrings (orNil (resourceDomains c))),
                ''frameDomains: '' @ stringify (jsonStrings (orNil (frameDomains c))),
                ''baseUriDomains: '' @ stringify (jsonStrings (orNil (baseUriDomains c)))]
           | None \<Rightarrow> [''No CSP declared.''])
        @ [[]]
        @ (case effectivePolicy of
             None \<Rightarrow> []
           | Some e \<Rightarrow>
               if e \<noteq> []
               then [''**Effective policy (originalPolicy):**'', ''```'', e, ''```'', []]
               else [])
        @ (if length violations > 0
           then [''**Blocked requests ('' @ showNat (length violations) @ ''):**'']
                @ map violationLine violations @ [[]]
           else [])
        @ (case fix of
             Some f \<Rightarrow>
               [''**Apply this CSP config to fix the violations:**'',
                ''Add these domains to the widget'' @ [CHR 0x27] @ ''s CSP metadata (appsSdkMetadata[''
                  @ [CHR 0x22] @ ''openai/widgetCSP'' @ [CHR 0x22]
                  @ ''] or resource _meta.ui.csp). Use camelCase for MCP Apps (connectDomains, resourceDomains) or snake_case for OpenAI format (connect_domains, resource_domains).'',
                [],
                ''```json'',
                stringify2 (JObj ([(''connectDomains'', jsonStrings (fixConnectDomains f)),
                                   (''resourceDomains'', jsonStrings (fixResourceDomains f))]
                                  @ (case fixFrameDomains f of
                                       None \<Rightarrow> []
                                     | Some fd \<Rightarrow>
                                         if length fd > 0 then [(''frameDomains'', jsonStrings fd)] else []))),
                ''```'']
           | None \<Rightarrow> [''No blocked requests - no fix needed.'']))"

definition suggestedFixFor ::
  "(string \<Rightarrow> string option) \<Rightarrow> string \<Rightarrow> CspViolation list \<Rightarrow> WidgetDeclaredCsp option \<Rightarrow>
   suggestedFix option" where
  \<comment> \<open>the constant \<open>suggestedFix\<close> of the component\<close>
  "suggestedFixFor urlOrigin cspMode cspViolations declaredCsp =
     (if cspMode = ''widget-declared'' \<and> length cspViolations > 0
      then Some (computeSuggestedFix urlOrigin cspViolations declaredCsp)
      else None)"

definition agentPrompt ::
  "(json \<Rightarrow> string) \<Rightarrow> (json \<Rightarrow> string) \<Rightarrow> (string \<Rightarrow> string option) \<Rightarrow> string \<Rightarrow>
   WidgetDeclaredCsp option \<Rightarrow> string option \<Rightarrow> CspViolation list \<Rightarrow> string" where
  "agentPrompt stringify stringify2 urlOrigin cspMode declaredCsp effectivePolicy cspViolations =
     (if int (length cspViolations) > - 1
      then buildAgentCspPrompt stringify stringify2 declaredCsp effectivePolicy cspViolations
             (suggestedFixFor urlOrigin cspMode cspViolations declaredCsp)
      else [])"

definition promptSectionShown :: "CspViolation list \<Rightarrow> bool" where
  \<comment> \<open>the guard of the "Prompt for Agents" block of the dialog\<close>
  "promptSectionShown cspViolations = (int (length cspViolations) > - 1)"

section \<open>Properties of the CSP policy builder\<close>

lemma trim_edges:
  "trim s = [] \<or> (\<not> isWhiteSpace (hd (trim s)) \<and> \<not> isWhiteSpace (last (trim s)))"
proof (cases "trim s = []")
  case True
  then show ?thesis by simp
next
  case False
  let ?a = "dropWhile isWhiteSpace s"
  let ?r = "dropWhile isWhiteSpace (rev ?a)"
  have t: "trim s = rev ?r" by (simp add: trim_def)
  with False have r: "?r \<noteq> []" by simp
  then have "\<not> isWhiteSpace (hd ?r)" by (rule hd_dropWhile)
  then have l: "\<not> isWhiteSpace (last (trim s))" using r t by (simp add: last_rev)
  have "?a = rev (takeWhile isWhiteSpace (rev ?a) @ ?r)"
    by (simp only: takeWhile_dropWhile_id rev_rev_ident)
  also have "\<dots> = rev ?r @ rev (takeWhile isWhiteSpace (rev ?a))"
    by (simp only: rev_append)
  finally have a: "?a = trim s @ rev (takeWhile isWhiteSpace (rev ?a))"
    by (simp only: t)
  then have "?a \<noteq> []" using False by (metis append_is_Nil_conv)
  then have "\<not> isWhiteSpace (hd ?a)" by (rule hd_dropWhile)
  moreover have "hd ?a = hd (trim s)" using a False by (metis hd_append2)
  ultimately show ?thesis using l by simp
qed

lemma trim_fixed:
  assumes "s = [] \<or> (\<not> isWhiteSpace (hd s) \<and> \<not> isWhiteSpace (last s))"
  shows "trim s = s"
proof (cases "s = []")
  case True
  then show ?thesis by (simp add: trim_def)
next
  case False
  with assms have h: "\<not> isWhiteSpace (hd s)" and l: "\<not> isWhiteSpace (last s)" by auto
  have 1: "dropWhile isWhiteSpace s = s" using h by (simp add: dropWhile_eq_self_iff)
  have "hd (rev s) = last s" using False by (simp add: hd_rev)
  then have 2: "dropWhile isWhiteSpace (rev s) = rev s" using l by (simp add: dropWhile_eq_self_iff)
  show ?thesis by (simp add: trim_def 1 2)
qed

lemma trim_idem: "trim (trim s) = trim s"
  by (rule trim_fixed) (rule trim_edges)

lemma set_trim: "set (trim s) \<subseteq> set s"
  unfolding trim_def
  by (metis set_dropWhileD set_rev subsetI)

lemma sanitize_clean: "set (sanitize d) \<inter> strippedChars = {}"
  using set_trim[of "filter (\<lambda>c. c \<notin> strippedChars) d"] by (auto simp: sanitize_def)

lemma sanitize_idem: "sanitize (sanitize d) = sanitize d"
proof -
  have "filter (\<lambda>c. c \<notin> strippedChars) (sanitize d) = sanitize d"
    using sanitize_clean[of d] by (intro filter_True) auto
  then show ?thesis
    unfolding sanitize_def by (simp add: trim_idem)
qed

lemma cleanDomains_tokens:
  "t \<in> set (cleanDomains ds) \<Longrightarrow>
     t \<noteq> [] \<and> set t \<inter> strippedChars = {} \<and>
     (\<exists>d \<in> set (case ds of None \<Rightarrow> [] | Some l \<Rightarrow> l). t = sanitize d)"
  using sanitize_clean by (auto simp: cleanDomains_def)

lemma cleanDomains_idem: "cleanDomains (Some (cleanDomains ds)) = cleanDomains ds"
proof -
  have "\<forall>t \<in> set (cleanDomains ds). sanitize t = t \<and> t \<noteq> []"
    by (auto simp: cleanDomains_def sanitize_idem)
  then have "map sanitize (cleanDomains ds) = cleanDomains ds"
    by (simp add: map_idI)
  moreover have "filter (\<lambda>t. t \<noteq> []) (cleanDomains ds) = cleanDomains ds"
    by (simp add: cleanDomains_def)
  ultimately show ?thesis
    by (simp add: cleanDomains_def[of "Some (cleanDomains ds)"])
qed

lemma cleanDomains_fixed:
  "\<forall>d \<in> set ds. d \<noteq> [] \<and> sanitize d = d \<Longrightarrow> cleanDomains (Some ds) = ds"
  by (simp add: cleanDomains_def map_idI)

lemma buildCSPString_from_clean:
  "buildCSPString csp =
   buildCSPString \<lparr>connectDomains = Some (cleanDomains (connectDomains csp)),
                   resourceDomains = Some (cleanDomains (resourceDomains csp)),
                   frameDomains = Some (cleanDomains (frameDomains csp)),
                   baseUriDomains = Some (cleanDomains (baseUriDomains csp))\<rparr>"
  by (simp add: buildCSPString_def cspDirectives_def connectSrc_def resourceSrc_def
      frameSrc_def baseUri_def cleanDomains_idem)

lemma countChar_append [simp]: "countChar c (a @ b) = countChar c a + countChar c b"
  by (simp add: countChar_def)

lemma countChar_zero: "c \<notin> set s \<Longrightarrow> countChar c s = 0"
  by (induction s) (auto simp: countChar_def)

lemma countChar_joinWith:
  "\<forall>x \<in> set xs. c \<notin> set x \<Longrightarrow> xs \<noteq> [] \<Longrightarrow>
   countChar c (joinWith sep xs) = (length xs - 1) * countChar c sep"
  by (induction sep xs rule: joinWith.induct) (auto simp: countChar_zero)

lemma notin_joinWith:
  "c \<notin> set sep \<Longrightarrow> \<forall>x \<in> set xs. c \<notin> set x \<Longrightarrow> c \<notin> set (joinWith sep xs)"
  by (induction sep xs rule: joinWith.induct) auto

lemma cleanDomains_notin: "c \<in> strippedChars \<Longrightarrow> \<forall>t \<in> set (cleanDomains ds). c \<notin> set t"
  using cleanDomains_tokens by blast

lemma stripped_cases: "c \<in> {CHR ''<'', CHR ''>'', CHR 0x22, CHR '';''} \<Longrightarrow> c \<in> strippedChars"
  by (auto simp: strippedChars_def)

lemma connectSrc_notin:
  assumes "c \<in> {CHR ''<'', CHR ''>'', CHR 0x22, CHR '';''}"
  shows "c \<notin> set (connectSrc csp)"
proof -
  have "c \<notin> set (joinWith '' '' (cleanDomains (connectDomains csp)))"
    using assms by (intro notin_joinWith cleanDomains_notin stripped_cases) auto
  moreover have "c \<notin> set none_kw" using assms by (auto simp: none_kw_def)
  ultimately show ?thesis by (simp add: connectSrc_def Let_def)
qed

lemma frameSrc_notin:
  assumes "c \<in> {CHR ''<'', CHR ''>'', CHR 0x22, CHR '';''}"
  shows "c \<notin> set (frameSrc csp)"
proof -
  have "c \<notin> set (joinWith '' '' (cleanDomains (frameDomains csp)))"
    using assms by (intro notin_joinWith cleanDomains_notin stripped_cases) auto
  moreover have "c \<notin> set none_kw" using assms by (auto simp: none_kw_def)
  ultimately show ?thesis by (simp add: frameSrc_def Let_def)
qed

lemma baseUri_notin:
  assumes "c \<in> {CHR ''<'', CHR ''>'', CHR 0x22, CHR '';''}"
  shows "c \<notin> set (baseUri csp)"
proof -
  have "c \<notin> set (joinWith '' '' (cleanDomains (baseUriDomains csp)))"
    using assms by (intro notin_joinWith cleanDomains_notin stripped_cases) auto
  moreover have "c \<notin> set none_kw" using assms by (auto simp: none_kw_def)
  ultimately show ?thesis by (simp add: baseUri_def Let_def)
qed

lemma resourceSrc_notin:
  assumes "c \<in> {CHR ''<'', CHR ''>'', CHR 0x22, CHR '';''}"
  shows "c \<notin> set (resourceSrc csp)"
proof -
  have "\<forall>t \<in> set ([''data:'', ''blob:''] @ cleanDomains (resourceDomains csp)). c \<notin> set t"
    using assms cleanDomains_notin[OF stripped_cases[OF assms], of "resourceDomains csp"] by auto
  then have "c \<notin> set (joinWith '' '' ([''data:'', ''blob:''] @ cleanDomains (resourceDomains csp)))"
    using assms by (intro notin_joinWith) auto
  moreover have "c \<notin> set ''data: blob:''" using assms by auto
  ultimately show ?thesis by (simp add: resourceSrc_def Let_def)
qed

lemma cspDirectives_notin:
  assumes "c \<in> {CHR ''<'', CHR ''>'', CHR 0x22, CHR '';''}"
  shows "\<forall>d \<in> set (cspDirectives csp). c \<notin> set d"
proof -
  have k: "c \<notin> set none_kw" "c \<notin> set unsafe_inline_kw"
    using assms by (auto simp: none_kw_def unsafe_inline_kw_def)
  note r = resourceSrc_notin[OF assms, of csp] connectSrc_notin[OF assms, of csp]
    frameSrc_notin[OF assms, of csp] baseUri_notin[OF assms, of csp]
  show ?thesis using k r assms by (auto simp: cspDirectives_def)
qed

lemma buildCSPString_semicolons: "countChar (CHR '';'') (buildCSPString csp) = 9"
proof -
  have "\<forall>d \<in> set (cspDirectives csp). CHR '';'' \<notin> set d"
    by (rule cspDirectives_notin) simp
  moreover have "length (cspDirectives csp) = 10" "cspDirectives csp \<noteq> []"
    by (simp_all add: cspDirectives_def)
  ultimately have "countChar (CHR '';'') (buildCSPString csp) = 9 * countChar (CHR '';'') ''; ''"
    unfolding buildCSPString_def by (simp add: countChar_joinWith)
  then show ?thesis by (simp add: countChar_def)
qed

lemma buildCSPString_no_markup:
  assumes "c \<in> {CHR ''<'', CHR ''>'', CHR 0x22}"
  shows "c \<notin> set (buildCSPString csp)"
proof -
  have "\<forall>d \<in> set (cspDirectives csp). c \<notin> set d"
    using assms by (intro cspDirectives_notin) auto
  then show ?thesis unfolding buildCSPString_def
    using assms by (intro notin_joinWith) auto
qed

lemma countChar_joinWith_sum:
  "countChar c (joinWith sep xs) = sum_list (map (countChar c) xs) + (length xs - 1) * countChar c sep"
  by (induction sep xs rule: joinWith.induct) (simp_all add: countChar_def)

lemma joinWith_occurs: "t \<in> set xs \<Longrightarrow> \<exists>pre post. joinWith sep xs = pre @ t @ post"
proof (induction sep xs rule: joinWith.induct)
  case (1 sep)
  then show ?case by simp
next
  case (2 sep x)
  then have "joinWith sep [x] = [] @ t @ []" by simp
  then show ?case by blast
next
  case (3 sep x y ys)
  show ?case
  proof (cases "t = x")
    case True
    then have "joinWith sep (x # y # ys) = [] @ t @ (sep @ joinWith sep (y # ys))" by simp
    then show ?thesis by blast
  next
    case False
    then have "t \<in> set (y # ys)" using "3.prems" by simp
    then obtain pre post where "joinWith sep (y # ys) = pre @ t @ post" using "3.IH" by blast
    then have "joinWith sep (x # y # ys) = (x @ sep @ pre) @ t @ post" by simp
    then show ?thesis by blast
  qed
qed

lemma sanitized_kept:
  "d \<in> set (case ds of None \<Rightarrow> [] | Some l \<Rightarrow> l) \<Longrightarrow> sanitize d \<noteq> [] \<Longrightarrow>
     sanitize d \<in> set (cleanDomains ds)"
  by (simp add: cleanDomains_def)

lemma resourceSrc_explicit:
  "resourceSrc csp = joinWith '' '' ([''data:'', ''blob:''] @ cleanDomains (resourceDomains csp))"
  by (simp add: resourceSrc_def Let_def)

lemma connectSrc_explicit:
  "connectSrc csp = (if cleanDomains (connectDomains csp) = [] then none_kw
                     else joinWith '' '' (cleanDomains (connectDomains csp)))"
  by (simp add: connectSrc_def Let_def)

lemma frameSrc_explicit:
  "frameSrc csp = (if cleanDomains (frameDomains csp) = [] then none_kw
                   else joinWith '' '' (cleanDomains (frameDomains csp)))"
  by (simp add: frameSrc_def Let_def)

lemma baseUri_explicit:
  "baseUri csp = (if cleanDomains (baseUriDomains csp) = [] then none_kw
                  else joinWith '' '' (cleanDomains (baseUriDomains csp)))"
  by (simp add: baseUri_def Let_def)

lemma quote_stripped: "CHR 0x27 \<in> strippedChars"
  by (simp add: strippedChars_def)

lemma quotes_tokens: "countChar (CHR 0x27) (joinWith '' '' (cleanDomains ds)) = 0"
  by (intro countChar_zero notin_joinWith cleanDomains_notin quote_stripped) simp

lemma quotes_resourceSrc: "countChar (CHR 0x27) (resourceSrc csp) = 0"
proof -
  have "\<forall>t \<in> set ([''data:'', ''blob:''] @ cleanDomains (resourceDomains csp)). CHR 0x27 \<notin> set t"
    using cleanDomains_notin[OF quote_stripped, of "resourceDomains csp"] by auto
  then show ?thesis
    unfolding resourceSrc_explicit by (intro countChar_zero notin_joinWith) auto
qed

lemma quotes_kw: "countChar (CHR 0x27) none_kw = 2" "countChar (CHR 0x27) unsafe_inline_kw = 2"
  by (simp_all add: countChar_def none_kw_def unsafe_inline_kw_def)

lemma quotes_connectSrc:
  "countChar (CHR 0x27) (connectSrc csp) = (if cleanDomains (connectDomains csp) = [] then 2 else 0)"
  by (simp add: connectSrc_explicit quotes_kw quotes_tokens)

lemma quotes_frameSrc:
  "countChar (CHR 0x27) (frameSrc csp) = (if cleanDomains (frameDomains csp) = [] then 2 else 0)"
  by (simp add: frameSrc_explicit quotes_kw quotes_tokens)

lemma quotes_baseUri:
  "countChar (CHR 0x27) (baseUri csp) = (if cleanDomains (baseUriDomains csp) = [] then 2 else 0)"
  by (simp add: baseUri_explicit quotes_kw quotes_tokens)

lemma countChar_Cons: "countChar c (x # xs) = (if x = c then 1 else 0) + countChar c xs"
  by (simp add: countChar_def)

lemma countChar_Nil: "countChar c [] = 0"
  by (simp add: countChar_def)

lemma buildCSPString_quotes:
  "countChar (CHR 0x27) (buildCSPString csp)
     = 8 + 2 * length (filter (\<lambda>l. cleanDomains l = [])
                         [connectDomains csp, frameDomains csp, baseUriDomains csp])"
  unfolding buildCSPString_def countChar_joinWith_sum cspDirectives_def
  by (simp add: countChar_Cons countChar_Nil quotes_kw quotes_resourceSrc quotes_connectSrc
      quotes_frameSrc quotes_baseUri del: joinWith.simps)


lemma buildCSPString_explicit:
  "buildCSPString csp = joinWith ''; ''
     [''default-src '' @ none_kw,
      ''script-src '' @ unsafe_inline_kw @ '' ''
         @ joinWith '' '' ([''data:'', ''blob:''] @ cleanDomains (resourceDomains csp)),
      ''style-src '' @ unsafe_inline_kw @ '' ''
         @ joinWith '' '' ([''data:'', ''blob:''] @ cleanDomains (resourceDomains csp)),
      ''img-src '' @ joinWith '' '' ([''data:'', ''blob:''] @ cleanDomains (resourceDomains csp)),
      ''font-src '' @ joinWith '' '' ([''data:'', ''blob:''] @ cleanDomains (resourceDomains csp)),
      ''media-src '' @ joinWith '' '' ([''data:'', ''blob:''] @ cleanDomains (resourceDomains csp)),
      ''connect-src '' @ (if cleanDomains (connectDomains csp) = [] then none_kw
                          else joinWith '' '' (cleanDomains (connectDomains csp))),
      ''frame-src '' @ (if cleanDomains (frameDomains csp) = [] then none_kw
                        else joinWith '' '' (cleanDomains (frameDomains csp))),
      ''object-src '' @ none_kw,
      ''base-uri '' @ (if cleanDomains (baseUriDomains csp) = [] then none_kw
                       else joinWith '' '' (cleanDomains (baseUriDomains csp)))]"
  unfolding buildCSPString_def cspDirectives_def
  by (simp only: resourceSrc_explicit connectSrc_explicit frameSrc_explicit baseUri_explicit)

lemma token_in_directive:
  assumes "t \<in> set toks" "d = name @ (if toks = [] then none_kw else joinWith '' '' toks)"
  shows "\<exists>pre post. d = name @ pre @ t @ post"
proof -
  obtain pre post where "joinWith '' '' toks = pre @ t @ post"
    using joinWith_occurs[OF assms(1)] by blast
  moreover have "toks \<noteq> []" using assms(1) by auto
  ultimately show ?thesis using assms(2) by auto
qed

lemma token_in_resource:
  assumes "t \<in> set (cleanDomains (resourceDomains csp))"
  shows "\<exists>pre post. resourceSrc csp = ''data: blob: '' @ pre @ t @ post"
proof -
  obtain pre post where j: "joinWith '' '' (cleanDomains (resourceDomains csp)) = pre @ t @ post"
    using joinWith_occurs[OF assms] by blast
  obtain x xs where c: "cleanDomains (resourceDomains csp) = x # xs"
    using assms by (cases "cleanDomains (resourceDomains csp)") auto
  have "resourceSrc csp = ''data: blob: '' @ joinWith '' '' (cleanDomains (resourceDomains csp))"
    unfolding resourceSrc_explicit c by simp
  then show ?thesis using j by auto
qed


text \<open>
  C7. Every domain token that \<open>buildCSPString\<close> puts into the policy is the sanitized form
  of a declared domain: it is not empty and holds none of the characters ' " < > ;, and
  every declared domain whose sanitized form is not empty gives such a token. The policy
  is the fixed text of its ten directives around these tokens and nothing else: each token
  stands in the directive of its list (\<open>connect-src\<close>; \<open>script-src\<close>, \<open>style-src\<close>,
  \<open>img-src\<close>, \<open>font-src\<close> and \<open>media-src\<close>; \<open>frame-src\<close>; \<open>base-uri\<close>), and the
  policy built from the declared lists is the policy built from their sanitized tokens.
  Whatever is declared, the policy has the nine semicolons that separate its directives,
  the single quotes of its keywords only, and no < > or " at all.
\<close>

theorem buildCSPString_sanitizes:
  "(\<forall>t \<in> set (cleanDomains ds).
      t \<noteq> [] \<and> set t \<inter> strippedChars = {} \<and>
      (\<exists>d \<in> set (case ds of None \<Rightarrow> [] | Some l \<Rightarrow> l). t = sanitize d))
   \<and> (\<forall>d \<in> set (case ds of None \<Rightarrow> [] | Some l \<Rightarrow> l).
         sanitize d \<noteq> [] \<longrightarrow> sanitize d \<in> set (cleanDomains ds))
   \<and> buildCSPString csp = joinWith ''; ''
       [''default-src '' @ none_kw,
        ''script-src '' @ unsafe_inline_kw @ '' ''
           @ joinWith '' '' ([''data:'', ''blob:''] @ cleanDomains (resourceDomains csp)),
        ''style-src '' @ unsafe_inline_kw @ '' ''
           @ joinWith '' '' ([''data:'', ''blob:''] @ cleanDomains (resourceDomains csp)),
        ''img-src '' @ joinWith '' '' ([''data:'', ''blob:''] @ cleanDomains (resourceDomains csp)),
        ''font-src '' @ joinWith '' '' ([''data:'', ''blob:''] @ cleanDomains (resourceDomains csp)),
        ''media-src '' @ joinWith '' '' ([''data:'', ''blob:''] @ cleanDomains (resourceDomains csp)),
        ''connect-src '' @ (if cleanDomains (connectDomains csp) = [] then none_kw
                            else joinWith '' '' (cleanDomains (connectDomains csp))),
        ''frame-src '' @ (if cleanDomains (frameDomains csp) = [] then none_kw
                          else joinWith '' '' (cleanDomains (frameDomains csp))),
        ''object-src '' @ none_kw,
        ''base-uri '' @ (if cleanDomains (baseUriDomains csp) = [] then none_kw
                         else joinWith '' '' (cleanDomains (baseUriDomains csp)))]
   \<and> (\<forall>t \<in> set (cleanDomains (connectDomains csp)).
         \<exists>pre post. cspDirectives csp ! 6 = ''connect-src '' @ pre @ t @ post)
   \<and> (\<forall>t \<in> set (cleanDomains (resourceDomains csp)).
         (\<exists>pre post. cspDirectives csp ! 1
             = ''script-src '' @ unsafe_inline_kw @ '' data: blob: '' @ pre @ t @ post)
       \<and> (\<exists>pre post. cspDirectives csp ! 2
             = ''style-src '' @ unsafe_inline_kw @ '' data: blob: '' @ pre @ t @ post)
       \<and> (\<exists>pre post. cspDirectives csp ! 3 = ''img-src data: blob: '' @ pre @ t @ post)
       \<and> (\<exists>pre post. cspDirectives csp ! 4 = ''font-src data: blob: '' @ pre @ t @ post)
       \<and> (\<exists>pre post. cspDirectives csp ! 5 = ''media-src data: blob: '' @ pre @ t @ post))
   \<and> (\<forall>t \<in> set (cleanDomains (frameDomains csp)).
         \<exists>pre post. cspDirectives csp ! 7 = ''frame-src '' @ pre @ t @ post)
   \<and> (\<forall>t \<in> set (cleanDomains (baseUriDomains csp)).
         \<exists>pre post. cspDirectives csp ! 9 = ''base-uri '' @ pre @ t @ post)
   \<and> buildCSPString csp =
       buildCSPString \<lparr>connectDomains = Some (cleanDomains (connectDomains csp)),
                       resourceDomains = Some (cleanDomains (resourceDomains csp)),
                       frameDomains = Some (cleanDomains (frameDomains csp)),
                       baseUriDomains = Some (cleanDomains (baseUriDomains csp))\<rparr>
   \<and> countChar (CHR '';'') (buildCSPString csp) = 9
   \<and> countChar (CHR 0x27) (buildCSPString csp)
       = 8 + 2 * length (filter (\<lambda>l. cleanDomains l = [])
                           [connectDomains csp, frameDomains csp, baseUriDomains csp])
   \<and> set (buildCSPString csp) \<inter> {CHR ''<'', CHR ''>'', CHR 0x22} = {}"
proof -
  have c1: "\<forall>t \<in> set (cleanDomains ds).
      t \<noteq> [] \<and> set t \<inter> strippedChars = {} \<and>
      (\<exists>d \<in> set (case ds of None \<Rightarrow> [] | Some l \<Rightarrow> l). t = sanitize d)"
    using cleanDomains_tokens[of _ ds] by blast
  have c2: "\<forall>d \<in> set (case ds of None \<Rightarrow> [] | Some l \<Rightarrow> l).
         sanitize d \<noteq> [] \<longrightarrow> sanitize d \<in> set (cleanDomains ds)"
    using sanitized_kept[of _ ds] by blast
  have c4: "\<forall>t \<in> set (cleanDomains (connectDomains csp)).
         \<exists>pre post. cspDirectives csp ! 6 = ''connect-src '' @ pre @ t @ post"
  proof
    fix t assume t: "t \<in> set (cleanDomains (connectDomains csp))"
    have "cspDirectives csp ! 6 = ''connect-src '' @ (if cleanDomains (connectDomains csp) = [] then none_kw
                          else joinWith '' '' (cleanDomains (connectDomains csp)))"
      by (simp add: cspDirectives_def connectSrc_explicit)
    then show "\<exists>pre post. cspDirectives csp ! 6 = ''connect-src '' @ pre @ t @ post"
      by (rule token_in_directive[OF t])
  qed
  have c6: "\<forall>t \<in> set (cleanDomains (frameDomains csp)).
         \<exists>pre post. cspDirectives csp ! 7 = ''frame-src '' @ pre @ t @ post"
  proof
    fix t assume t: "t \<in> set (cleanDomains (frameDomains csp))"
    have "cspDirectives csp ! 7 = ''frame-src '' @ (if cleanDomains (frameDomains csp) = [] then none_kw
                          else joinWith '' '' (cleanDomains (frameDomains csp)))"
      by (simp add: cspDirectives_def frameSrc_explicit)
    then show "\<exists>pre post. cspDirectives csp ! 7 = ''frame-src '' @ pre @ t @ post"
      by (rule token_in_directive[OF t])
  qed
  have c7: "\<forall>t \<in> set (cleanDomains (baseUriDomains csp)).
         \<exists>pre post. cspDirectives csp ! 9 = ''base-uri '' @ pre @ t @ post"
  proof
    fix t assume t: "t \<in> set (cleanDomains (baseUriDomains csp))"
    have "cspDirectives csp ! 9 = ''base-uri '' @ (if cleanDomains (baseUriDomains csp) = [] then none_kw
                          else joinWith '' '' (cleanDomains (baseUriDomains csp)))"
      by (simp add: cspDirectives_def baseUri_explicit)
    then show "\<exists>pre post. cspDirectives csp ! 9 = ''base-uri '' @ pre @ t @ post"
      by (rule token_in_directive[OF t])
  qed
  have c5: "\<forall>t \<in> set (cleanDomains (resourceDomains csp)).
         (\<exists>pre post. cspDirectives csp ! 1
             = ''script-src '' @ unsafe_inline_kw @ '' data: blob: '' @ pre @ t @ post)
       \<and> (\<exists>pre post. cspDirectives csp ! 2
             = ''style-src '' @ unsafe_inline_kw @ '' data: blob: '' @ pre @ t @ post)
       \<and> (\<exists>pre post. cspDirectives csp ! 3 = ''img-src data: blob: '' @ pre @ t @ post)
       \<and> (\<exists>pre post. cspDirectives csp ! 4 = ''font-src data: blob: '' @ pre @ t @ post)
       \<and> (\<exists>pre post. cspDirectives csp ! 5 = ''media-src data: blob: '' @ pre @ t @ post)"
  proof
    fix t assume t: "t \<in> set (cleanDomains (resourceDomains csp))"
    obtain pre post where r: "resourceSrc csp = ''data: blob: '' @ pre @ t @ post"
      using token_in_resource[OF t] by blast
    have "cspDirectives csp ! 1 = ''script-src '' @ unsafe_inline_kw @ '' data: blob: '' @ pre @ t @ post"
      "cspDirectives csp ! 2 = ''style-src '' @ unsafe_inline_kw @ '' data: blob: '' @ pre @ t @ post"
      "cspDirectives csp ! 3 = ''img-src data: blob: '' @ pre @ t @ post"
      "cspDirectives csp ! 4 = ''font-src data: blob: '' @ pre @ t @ post"
      "cspDirectives csp ! 5 = ''media-src data: blob: '' @ pre @ t @ post"
      by (simp_all add: cspDirectives_def r)
    then show "(\<exists>pre post. cspDirectives csp ! 1
             = ''script-src '' @ unsafe_inline_kw @ '' data: blob: '' @ pre @ t @ post)
       \<and> (\<exists>pre post. cspDirectives csp ! 2
             = ''style-src '' @ unsafe_inline_kw @ '' data: blob: '' @ pre @ t @ post)
       \<and> (\<exists>pre post. cspDirectives csp ! 3 = ''img-src data: blob: '' @ pre @ t @ post)
       \<and> (\<exists>pre post. cspDirectives csp ! 4 = ''font-src data: blob: '' @ pre @ t @ post)
       \<and> (\<exists>pre post. cspDirectives csp ! 5 = ''media-src data: blob: '' @ pre @ t @ post)"
      by blast
  qed
  have c11: "set (buildCSPString csp) \<inter> {CHR ''<'', CHR ''>'', CHR 0x22} = {}"
    using buildCSPString_no_markup[of _ csp] by blast
  note c3 = buildCSPString_explicit[of csp]
  note c8 = buildCSPString_from_clean[of csp]
  note c9 = buildCSPString_semicolons[of csp]
  note c10 = buildCSPString_quotes[of csp]
  show ?thesis
    by (intro conjI) (rule c1 c2 c3 c4 c5 c6 c7 c8 c9 c10 c11)+
qed

theorem buildCSPString_sanitizes_witness:
  "cleanDomains (Some [''https://a.example; script-src *'', ''<>'']) = [''https://a.example script-src *'']
   \<and> cspDirectives \<lparr>connectDomains = Some [''https://a.example; script-src *'', ''<>''],
           resourceDomains = None, frameDomains = None, baseUriDomains = None\<rparr> ! 6
       = ''connect-src https://a.example script-src *''
   \<and> countChar (CHR '';'')
        (buildCSPString \<lparr>connectDomains = Some [''https://a.example; script-src *'', ''<>''],
           resourceDomains = None, frameDomains = None, baseUriDomains = None\<rparr>) = 9
   \<and> countChar (CHR 0x27)
        (buildCSPString \<lparr>connectDomains = Some [''https://a.example; script-src *'', ''<>''],
           resourceDomains = None, frameDomains = None, baseUriDomains = None\<rparr>) = 12"
proof -
  let ?csp = "\<lparr>connectDomains = Some [''https://a.example; script-src *'', ''<>''],
          resourceDomains = None, frameDomains = None, baseUriDomains = None\<rparr>"
  note w = buildCSPString_sanitizes [of "Some [''https://a.example; script-src *'', ''<>'']" ?csp]
  have cd: "cleanDomains (Some [''https://a.example; script-src *'', ''<>''])
      = [''https://a.example script-src *'']"
    by (simp add: cleanDomains_def sanitize_def trim_def isWhiteSpace_def strippedChars_def)
  have none: "cleanDomains None = []" by (simp add: cleanDomains_def)
  have semi: "countChar (CHR '';'') (buildCSPString ?csp) = 9"
    using w by blast
  have "countChar (CHR 0x27) (buildCSPString ?csp)
       = 8 + 2 * length (filter (\<lambda>l. cleanDomains l = [])
                           [connectDomains ?csp, frameDomains ?csp, baseUriDomains ?csp])"
    using w by blast
  then have q: "countChar (CHR 0x27) (buildCSPString ?csp) = 12"
    by (simp add: cd none)
  have d: "cspDirectives ?csp ! 6 = ''connect-src https://a.example script-src *''"
    by (simp add: cspDirectives_def connectSrc_def cd)
  show ?thesis using cd d semi q by simp
qed

text \<open>
  C8 (as amended). The seventh directive of the policy is \<open>connect-src\<close>. Its value is
  \<open>'none'\<close> when no sanitized token is left (the list is absent, empty, or made of
  domains that sanitize to nothing), and otherwise the sanitized tokens joined by single
  spaces; this is the declared list itself, joined by single spaces, when every declared
  domain is non-empty and unchanged by sanitization.
\<close>

theorem connect_src_directive:
  "cspDirectives csp ! 6 = ''connect-src '' @ connectSrc csp
   \<and> (\<exists>pre post. buildCSPString csp = pre @ ''; connect-src '' @ connectSrc csp @ ''; frame-src '' @ post)
   \<and> connectSrc csp =
        (if cleanDomains (connectDomains csp) = [] then none_kw
         else joinWith '' '' (cleanDomains (connectDomains csp)))
   \<and> (connectDomains csp = None \<or> connectDomains csp = Some [] \<longrightarrow> connectSrc csp = none_kw)
   \<and> (\<forall>ds. connectDomains csp = Some ds \<and> ds \<noteq> [] \<and> (\<forall>d \<in> set ds. d \<noteq> [] \<and> sanitize d = d)
          \<longrightarrow> connectSrc csp = joinWith '' '' ds)"
proof -
  have a: "cspDirectives csp ! 6 = ''connect-src '' @ connectSrc csp"
    by (simp add: cspDirectives_def)
  have b: "\<exists>pre post. buildCSPString csp = pre @ ''; connect-src '' @ connectSrc csp @ ''; frame-src '' @ post"
  proof -
    let ?pre = "joinWith ''; '' (take 6 (cspDirectives csp))"
    let ?post = "frameSrc csp @ ''; object-src '' @ none_kw @ ''; base-uri '' @ baseUri csp"
    have "buildCSPString csp = ?pre @ ''; connect-src '' @ connectSrc csp @ ''; frame-src '' @ ?post"
      by (simp add: buildCSPString_def cspDirectives_def)
    then show ?thesis by blast
  qed
  have c: "connectSrc csp =
        (if cleanDomains (connectDomains csp) = [] then none_kw
         else joinWith '' '' (cleanDomains (connectDomains csp)))"
    by (simp add: connectSrc_def Let_def)
  have d: "connectDomains csp = None \<or> connectDomains csp = Some [] \<longrightarrow> connectSrc csp = none_kw"
    by (auto simp: connectSrc_def cleanDomains_def)
  have e: "\<forall>ds. connectDomains csp = Some ds \<and> ds \<noteq> [] \<and> (\<forall>d \<in> set ds. d \<noteq> [] \<and> sanitize d = d)
          \<longrightarrow> connectSrc csp = joinWith '' '' ds"
    using cleanDomains_fixed by (auto simp: c)
  from a b c d e show ?thesis by blast
qed

theorem connect_src_directive_witness:
  "connectSrc \<lparr>connectDomains = Some [''https://api.example.com'', ''wss://api.example.com''],
      resourceDomains = None, frameDomains = None, baseUriDomains = None\<rparr>
     = ''https://api.example.com wss://api.example.com''
   \<and> connectSrc \<lparr>connectDomains = Some [], resourceDomains = None, frameDomains = None,
      baseUriDomains = None\<rparr> = none_kw"
  using connect_src_directive [of "\<lparr>connectDomains = Some [''https://api.example.com'', ''wss://api.example.com''],
      resourceDomains = None, frameDomains = None, baseUriDomains = None\<rparr>"]
    connect_src_directive [of "\<lparr>connectDomains = Some [], resourceDomains = None, frameDomains = None,
      baseUriDomains = None\<rparr>"]
  by (simp add: sanitize_def trim_def isWhiteSpace_def strippedChars_def cleanDomains_def)

text \<open>
  The claim as the specification words it fails: the declared list holding the single
  source expression \<open>'self'\<close> is not empty, and the directive is \<open>connect-src self\<close>.
\<close>

theorem connect_src_declared_counterexample:
  "cspDirectives \<lparr>connectDomains = Some [CHR 0x27 # ''self'' @ [CHR 0x27]], resourceDomains = None,
      frameDomains = None, baseUriDomains = None\<rparr> ! 6 = ''connect-src self''
   \<and> cspDirectives \<lparr>connectDomains = Some [CHR 0x27 # ''self'' @ [CHR 0x27]], resourceDomains = None,
      frameDomains = None, baseUriDomains = None\<rparr> ! 6
      \<noteq> ''connect-src '' @ joinWith '' '' [CHR 0x27 # ''self'' @ [CHR 0x27]]"
  by (simp add: cspDirectives_def connectSrc_def cleanDomains_def sanitize_def trim_def
      isWhiteSpace_def strippedChars_def)

section \<open>Properties of the re-initialisation debounce and of the teardown\<close>

lemma run_Nil [simp]: "run jp [] s = s"
  by (simp add: run_def)

lemma run_Cons [simp]: "run jp (e # evs) s = run jp evs (handle jp s e)"
  by (simp add: run_def)

lemma advance_idle:
  "resendTimerRef s = None \<Longrightarrow> closeDue s = None \<Longrightarrow> advance jp t s = s"
  by (simp add: advance_def)

lemma advance_keeps:
  "initCount (advance jp t s) = initCount s"
  "lastInitTimeRef (advance jp t s) = lastInitTimeRef s"
  "listening (advance jp t s) = listening s"
  "toolInputRef (advance jp t s) = toolInputRef s"
  "toolOutputRef (advance jp t s) = toolOutputRef s"
  "customPropsRef (advance jp t s) = customPropsRef s"
  by (auto simp: advance_def resendCallback_def Let_def split: option.splits)

lemma genuine_step:
  assumes "listening s" "resendTimerRef s = None" "closeDue s = None"
    and "lastInitTimeRef s \<le> 0 \<or> 2000 \<le> t - lastInitTimeRef s"
  shows "handle jp s (t, Initialized) = s\<lparr>lastInitTimeRef := t, initCount := initCount s + 1\<rparr>"
  using assms by (auto simp: advance_idle oninitialized_def)

lemma genuine_run:
  assumes "listening s" "resendTimerRef s = None" "closeDue s = None"
    and "ts = [] \<or> lastInitTimeRef s \<le> 0 \<or> 2000 \<le> hd ts - lastInitTimeRef s"
    and "apart ts"
  shows "initCount (run jp (announcements ts) s) = initCount s + length ts
       \<and> journal (run jp (announcements ts) s) = journal s
       \<and> resendTimerRef (run jp (announcements ts) s) = None"
  using assms
proof (induction ts arbitrary: s)
  case Nil
  then show ?case by (simp add: announcements_def)
next
  case (Cons t ts)
  let ?s' = "s\<lparr>lastInitTimeRef := t, initCount := initCount s + 1\<rparr>"
  have step: "handle jp s (t, Initialized) = ?s'"
    using Cons.prems by (intro genuine_step) auto
  have next_ok: "ts = [] \<or> lastInitTimeRef ?s' \<le> 0 \<or> 2000 \<le> hd ts - lastInitTimeRef ?s'"
    using Cons.prems(5) by (cases ts) auto
  have ap: "apart ts" using Cons.prems(5) by (cases ts) auto
  have "initCount (run jp (announcements ts) ?s') = initCount ?s' + length ts
       \<and> journal (run jp (announcements ts) ?s') = journal ?s'
       \<and> resendTimerRef (run jp (announcements ts) ?s') = None"
    using Cons.prems(1-3) next_ok ap by (intro Cons.IH) auto
  then show ?case using step by (simp add: announcements_def)
qed

text \<open>
  C4. When consecutive "initialized" announcements are more than 2000 ms apart, each one
  is taken as genuine: after the \<open>n\<close> announcements \<open>initCount\<close> is \<open>n\<close>, and no deferred
  resend has been armed or sent.
\<close>

theorem genuine_inits_counted:
  "apart ts \<Longrightarrow>
     initCount (run jsonParse (announcements ts) (mounted p)) = length ts
     \<and> journal (run jsonParse (announcements ts) (mounted p)) = []"
  using genuine_run[of "mounted p" ts jsonParse] by (simp add: mounted_def)

theorem genuine_inits_counted_witness:
  "apart [1000, 3001, 6000]
   \<and> initCount (run (\<lambda>x. None) (announcements [1000, 3001, 6000])
        (mounted \<lparr>toolCallId = ''call-1'', toolInput = None, toolOutput = None,
                   partialToolInput = None, customProps = None\<rparr>)) = 3"
  using genuine_inits_counted [of "[1000, 3001, 6000]" "\<lambda>x. None"
      "\<lparr>toolCallId = ''call-1'', toolInput = None, toolOutput = None,
        partialToolInput = None, customProps = None\<rparr>"]
  by simp







lemma raceSettles_bound: "raceSettles r \<le> 2000"
  by (cases r) (simp_all add: raceSettles_def TEARDOWN_TIMEOUT_def)

lemma advance_after_cleanup:
  assumes "t + 2000 \<le> T"
  shows "advance jp T (cleanup t r s) =
         (cleanup t r s)\<lparr>closeDue := None,
           journal := journal (cleanup t r s) @ [(t + int (raceSettles r), CloseBridge)]\<rparr>"
proof -
  have "t + int (raceSettles r) \<le> T" using assms raceSettles_bound[of r] by linarith
  then show ?thesis by (simp add: advance_def cleanup_def)
qed

lemma sends_append [simp]: "sends (a @ b) = sends a @ sends b"
  by (simp add: sends_def)

lemma handle_unmounted:
  assumes "\<not> listening s" "resendTimerRef s = None"
  shows "\<not> listening (handle jp s e) \<and> resendTimerRef (handle jp s e) = None
       \<and> sends (journal (handle jp s e)) = sends (journal s)"
proof -
  obtain t ev where e: "e = (t, ev)" by (cases e)
  have adv: "\<not> listening (advance jp t s)" "resendTimerRef (advance jp t s) = None"
    "sends (journal (advance jp t s)) = sends (journal s)"
    using assms by (auto simp: advance_def sends_def split: option.splits)
  show ?thesis
    unfolding e using adv by (cases ev) (simp_all add: cleanup_def sends_def)
qed

lemma run_unmounted:
  assumes "\<not> listening s" "resendTimerRef s = None"
  shows "sends (journal (run jp evs s)) = sends (journal s)"
  using assms
proof (induction evs arbitrary: s)
  case Nil
  then show ?case by simp
next
  case (Cons e evs)
  have h: "\<not> listening (handle jp s e)" "resendTimerRef (handle jp s e) = None"
    "sends (journal (handle jp s e)) = sends (journal s)"
    using handle_unmounted[OF Cons.prems] by auto
  show ?case using Cons.IH[OF h(1,2)] h(3) by simp
qed

text \<open>
  C6. The cleanup clears the resend timer first, then removes the listener and asks the
  guest to release its resources. The race with the 2000 ms timeout settles within
  2000 ms whatever the guest does (it resolves, rejects or stays silent), and the bridge
  is closed at that moment. Whatever happens after the cleanup, nothing more is sent:
  no resend runs once the teardown has started.
\<close>

theorem teardown_bounded:
  "journal (cleanup t r s)
     = journal s @ [(t, ClearResendTimer), (t, RemoveMessageListener), (t, TeardownResource)]
   \<and> resendTimerRef (cleanup t r s) = None
   \<and> raceSettles r \<le> 2000
   \<and> (\<forall>T. t + 2000 \<le> T \<longrightarrow>
         journal (advance jsonParse T (cleanup t r s))
           = journal (cleanup t r s) @ [(t + int (raceSettles r), CloseBridge)])
   \<and> (\<forall>evs. sends (journal (run jsonParse evs (cleanup t r s))) = sends (journal s))"
proof -
  have a: "journal (cleanup t r s)
     = journal s @ [(t, ClearResendTimer), (t, RemoveMessageListener), (t, TeardownResource)]"
    and b: "resendTimerRef (cleanup t r s) = None" and l: "\<not> listening (cleanup t r s)"
    by (simp_all add: cleanup_def)
  have c: "\<forall>T. t + 2000 \<le> T \<longrightarrow>
         journal (advance jsonParse T (cleanup t r s))
           = journal (cleanup t r s) @ [(t + int (raceSettles r), CloseBridge)]"
    by (simp add: advance_after_cleanup)
  have "sends (journal (cleanup t r s)) = sends (journal s)"
    by (simp add: a) (simp add: sends_def)
  then have d: "\<forall>evs. sends (journal (run jsonParse evs (cleanup t r s))) = sends (journal s)"
    using run_unmounted[OF l b] by simp
  from a b c d raceSettles_bound[of r] show ?thesis by blast
qed

theorem teardown_bounded_witness:
  "journal (advance (\<lambda>x. None) 9000 (run (\<lambda>x. None)
      [(1000, Initialized), (1500, Initialized), (1600, Unmount NeverSettles), (1700, Initialized)]
      (mounted \<lparr>toolCallId = ''call-1'', toolInput = None, toolOutput = None,
                 partialToolInput = None, customProps = None\<rparr>)))
   = [(1600, ClearResendTimer), (1600, RemoveMessageListener), (1600, TeardownResource),
      (3600, CloseBridge)]"
proof -
  let ?p = "\<lparr>toolCallId = ''call-1'', toolInput = None, toolOutput = None,
              partialToolInput = None, customProps = None\<rparr>"
  define s where "s = (mounted ?p)\<lparr>lastInitTimeRef := 1000, initCount := 1, resendTimerRef := Some 1800\<rparr>"
  have r: "run (\<lambda>x. None)
      [(1000, Initialized), (1500, Initialized), (1600, Unmount NeverSettles), (1700, Initialized)]
      (mounted ?p) = cleanup 1600 NeverSettles s"
    by (simp add: s_def mounted_def advance_def oninitialized_def cleanup_def Let_def
        raceSettles_def TEARDOWN_TIMEOUT_def)
  note w = teardown_bounded [of 1600 NeverSettles s "\<lambda>x. None"]
  have "journal (advance (\<lambda>x. None) 9000 (cleanup 1600 NeverSettles s))
      = journal (cleanup 1600 NeverSettles s) @ [(1600 + int (raceSettles NeverSettles), CloseBridge)]"
    using w by simp
  then show ?thesis
    by (simp only: r) (simp add: s_def mounted_def cleanup_def raceSettles_def TEARDOWN_TIMEOUT_def)
qed

section \<open>Properties of the data push effects\<close>

lemma digitChar_inj: "a < 10 \<Longrightarrow> b < 10 \<Longrightarrow> digitChar a = digitChar b \<Longrightarrow> a = b"
proof -
  assume a: "a < 10" and b: "b < 10" and e: "digitChar a = digitChar b"
  have "(of_char (digitChar a) :: nat) = (48 + a) mod 256"
    by (simp only: digitChar_def of_char_of)
  moreover have "(of_char (digitChar b) :: nat) = (48 + b) mod 256"
    by (simp only: digitChar_def of_char_of)
  ultimately have "(48 + a) mod 256 = (48 + b) mod 256" using e by (simp only:)
  moreover have "(48 + a) mod 256 = 48 + a" "(48 + b) mod 256 = 48 + b"
    using a b by simp_all
  ultimately show "a = b" by linarith
qed

lemma showNat_nonempty: "showNat n \<noteq> []"
  by (subst showNat.simps) simp

lemma showNat_inj: "showNat n = showNat m \<Longrightarrow> n = m"
proof (induction n arbitrary: m rule: showNat.induct)
  case (1 n)
  show ?case
  proof (cases "n < 10")
    case True
    then have n: "showNat n = [digitChar n]" by (subst showNat.simps) simp
    show ?thesis
    proof (cases "m < 10")
      case mt: True
      then have "showNat m = [digitChar m]" by (subst showNat.simps) simp
      then show ?thesis using n "1.prems" True mt digitChar_inj by auto
    next
      case False
      then have "showNat m = showNat (m div 10) @ [digitChar (m mod 10)]"
        by (subst showNat.simps) simp
      then show ?thesis using n "1.prems" showNat_nonempty[of "m div 10"] by auto
    qed
  next
    case False
    then have n: "showNat n = showNat (n div 10) @ [digitChar (n mod 10)]"
      by (subst showNat.simps) simp
    show ?thesis
    proof (cases "m < 10")
      case True
      then have "showNat m = [digitChar m]" by (subst showNat.simps) simp
      then show ?thesis using n "1.prems" showNat_nonempty[of "n div 10"] by auto
    next
      case mf: False
      then have m: "showNat m = showNat (m div 10) @ [digitChar (m mod 10)]"
        by (subst showNat.simps) simp
      from n m "1.prems" have e: "showNat (n div 10) = showNat (m div 10)"
        "digitChar (n mod 10) = digitChar (m mod 10)" by auto
      have "n div 10 = m div 10" using "1.IH"[OF False e(1)] .
      moreover have "n mod 10 = m mod 10" using e(2) by (intro digitChar_inj) auto
      ultimately show ?thesis by (metis div_mult_mod_eq)
    qed
  qed
qed

lemma sentKeyOf_inj: "sentKeyOf tid ic = sentKeyOf tid ic' \<Longrightarrow> ic = ic'"
  by (simp add: sentKeyOf_def showNat_inj)



lemma tool_input_resent_after_reinit:
  assumes "bridgeRef s" "ic \<noteq> 0" "partialToolInput p = None"
  shows "outbox (sendToolInputEffect stringify jsonParse p (ic + 1)
            (sendToolInputEffect stringify jsonParse p ic s))
         = outbox (sendToolInputEffect stringify jsonParse p ic s)
             @ [ToolInput (mergedArgs jsonParse (toolInput p) (customProps p))]"
proof -
  have "sentKeyOf (toolCallId p) (ic + 1) \<noteq> sentKeyOf (toolCallId p) ic"
    using sentKeyOf_inj[of "toolCallId p" "ic + 1" ic] by auto
  then show ?thesis
    using assms by (simp add: sendToolInputEffect_def Let_def)
qed

lemma sendToolInputEffect_idem:
  "sendToolInputEffect stringify jsonParse p ic (sendToolInputEffect stringify jsonParse p ic s)
   = sendToolInputEffect stringify jsonParse p ic s"
  by (simp add: sendToolInputEffect_def Let_def)

lemma settle_after_effect:
  assumes "bridgeRef x" "ic \<noteq> 0" "pendingFrame x = None"
  shows "outbox (animationFrame (sendToolInputEffect stringify jsonParse q ic x))
     = (if toolInputSentRef x = Some (sentKeyOf (toolCallId q) ic)
           \<and> lastSentPropsRef x
               = Some (stringify (JObj (mergedArgs jsonParse (toolInput q) (customProps q))))
        then outbox x
        else outbox x @ [ToolInput (mergedArgs jsonParse (toolInput q) (customProps q))])"
proof (cases "partialToolInput q")
  case None
  then show ?thesis
    using assms by (simp add: sendToolInputEffect_def Let_def animationFrame_def)
next
  case (Some a)
  then show ?thesis
    using assms by (simp add: sendToolInputEffect_def Let_def animationFrame_def)
qed


lemma first_push_done:
  assumes "bridgeRef s" "ic \<noteq> 0" "pendingFrame s = None"
    and "\<not> (toolInputSentRef s = Some (sentKeyOf (toolCallId p) ic)
            \<and> lastSentPropsRef s
                = Some (stringify (JObj (mergedArgs jsonParse (toolInput p) (customProps p)))))"
    and "fired \<or> partialToolInput p = None"
  defines "x \<equiv> cancelAnimationFrame ((if fired then animationFrame else id)
                (sendToolInputEffect stringify jsonParse p ic s))"
  shows "bridgeRef x \<and> pendingFrame x = None
    \<and> outbox x = outbox s @ [ToolInput (mergedArgs jsonParse (toolInput p) (customProps p))]
    \<and> toolInputSentRef x = Some (sentKeyOf (toolCallId p) ic)
    \<and> lastSentPropsRef x = Some (stringify (JObj (mergedArgs jsonParse (toolInput p) (customProps p))))"
proof (cases "partialToolInput p")
  case None
  then show ?thesis
    using assms(1-4) unfolding x_def
    by (cases fired)
       (simp_all add: sendToolInputEffect_def Let_def animationFrame_def cancelAnimationFrame_def)
next
  case (Some a)
  then have fired using assms(5) by simp
  then show ?thesis
    using Some assms(1-4) unfolding x_def
    by (simp add: sendToolInputEffect_def Let_def animationFrame_def cancelAnimationFrame_def)
qed

lemma first_push_cancelled:
  assumes "bridgeRef s" "ic \<noteq> 0" "pendingFrame s = None"
    and "\<not> (toolInputSentRef s = Some (sentKeyOf (toolCallId p) ic)
            \<and> lastSentPropsRef s
                = Some (stringify (JObj (mergedArgs jsonParse (toolInput p) (customProps p)))))"
    and "partialToolInput p = Some a"
  defines "x \<equiv> cancelAnimationFrame (sendToolInputEffect stringify jsonParse p ic s)"
  shows "bridgeRef x \<and> pendingFrame x = None \<and> outbox x = outbox s
    \<and> toolInputSentRef x = toolInputSentRef s \<and> lastSentPropsRef x = lastSentPropsRef s"
  using assms(1-5) unfolding x_def
  by (simp add: sendToolInputEffect_def Let_def cancelAnimationFrame_def)

text \<open>
  C5. The tool-input push is idempotent: running the effect a second time with the same
  props and the same \<open>initCount\<close> changes nothing. From a state in which this payload
  has not been sent under this \<open>(toolCallId, initCount)\<close>, two pushes of the same merged
  payload transmit exactly one tool-input message, on the direct path and on the path
  deferred to an animation frame, whether or not the frame of the first push has fired
  before the second push.
\<close>

theorem tool_input_push_idempotent:
  "sendToolInputEffect stringify jsonParse p ic (sendToolInputEffect stringify jsonParse p ic s)
     = sendToolInputEffect stringify jsonParse p ic s
   \<and> (bridgeRef s \<and> ic \<noteq> 0 \<and> pendingFrame s = None
        \<and> \<not> (toolInputSentRef s = Some (sentKeyOf (toolCallId p) ic)
              \<and> lastSentPropsRef s
                  = Some (stringify (JObj (mergedArgs jsonParse (toolInput p) (customProps p)))))
        \<and> toolCallId p' = toolCallId p
        \<and> mergedArgs jsonParse (toolInput p') (customProps p')
            = mergedArgs jsonParse (toolInput p) (customProps p)
      \<longrightarrow> outbox (animationFrame (sendToolInputEffect stringify jsonParse p' ic
             (cancelAnimationFrame ((if fired then animationFrame else id)
                (sendToolInputEffect stringify jsonParse p ic s)))))
          = outbox s @ [ToolInput (mergedArgs jsonParse (toolInput p) (customProps p))])"
proof -
  let ?m = "mergedArgs jsonParse (toolInput p) (customProps p)"
  let ?k = "sentKeyOf (toolCallId p) ic"
  let ?x = "cancelAnimationFrame ((if fired then animationFrame else id)
                (sendToolInputEffect stringify jsonParse p ic s))"
  have "outbox (animationFrame (sendToolInputEffect stringify jsonParse p' ic ?x))
          = outbox s @ [ToolInput ?m]"
    if h: "bridgeRef s" "ic \<noteq> 0" "pendingFrame s = None"
      "\<not> (toolInputSentRef s = Some ?k \<and> lastSentPropsRef s = Some (stringify (JObj ?m)))"
      and same: "toolCallId p' = toolCallId p"
        "mergedArgs jsonParse (toolInput p') (customProps p') = ?m"
  proof (cases "fired \<or> partialToolInput p = None")
    case True
    note x = first_push_done[where s=s and ic=ic and p=p and stringify=stringify
        and jsonParse=jsonParse and fired=fired, OF h True]
    have "outbox (animationFrame (sendToolInputEffect stringify jsonParse p' ic ?x)) = outbox ?x"
      using x h(2) same by (simp add: settle_after_effect)
    then show ?thesis using x by simp
  next
    case False
    then obtain a where a: "partialToolInput p = Some a" and nf: "\<not> fired" by auto
    note x = first_push_cancelled[where s=s and ic=ic and p=p and stringify=stringify
        and jsonParse=jsonParse, OF h a]
    have x': "?x = cancelAnimationFrame (sendToolInputEffect stringify jsonParse p ic s)"
      using nf by simp
    have "outbox (animationFrame (sendToolInputEffect stringify jsonParse p' ic ?x))
        = outbox ?x @ [ToolInput ?m]"
      unfolding x' using x h(2,4) same by (simp add: settle_after_effect)
    then show ?thesis unfolding x' using x by simp
  qed
  then show ?thesis using sendToolInputEffect_idem by blast
qed


theorem tool_input_push_idempotent_witness:
  "outbox (sendToolInputEffect (\<lambda>j. ''{}'') (\<lambda>x. None)
      \<lparr>toolCallId = ''call-1'', toolInput = Some [(''q'', JStr ''x'')], toolOutput = None,
        partialToolInput = None, customProps = None\<rparr> 1
      (sendToolInputEffect (\<lambda>j. ''{}'') (\<lambda>x. None)
        \<lparr>toolCallId = ''call-1'', toolInput = Some [(''q'', JStr ''x'')], toolOutput = None,
          partialToolInput = None, customProps = None\<rparr> 1
        \<lparr>bridgeRef = True, toolInputSentRef = None, lastSentPropsRef = None,
          lastSentToolOutputKeyRef = None, pendingFrame = None, outbox = []\<rparr>))
   = [ToolInput [(''q'', JStr ''x'')]]"
proof -
  note w = tool_input_push_idempotent
    [of "\<lambda>j. ''{}''" "\<lambda>x. None"
        "\<lparr>toolCallId = ''call-1'', toolInput = Some [(''q'', JStr ''x'')], toolOutput = None,
          partialToolInput = None, customProps = None\<rparr>" 1
        "\<lparr>bridgeRef = True, toolInputSentRef = None, lastSentPropsRef = None,
          lastSentToolOutputKeyRef = None, pendingFrame = None, outbox = []\<rparr>",
     THEN conjunct1]
  show ?thesis
    by (simp only: w) (simp add: sendToolInputEffect_def mergedArgs_def spread_def defineProp_def)
qed

lemma sendToolResultEffect_key:
  assumes "bridgeRef s" "ic \<noteq> 0" "toolOutput p = Some out" "truthy out"
  shows "lastSentToolOutputKeyRef (sendToolResultEffect stringify jsonParse p ic s)
           = Some (contentKeyOf stringify out (customProps p))
       \<and> bridgeRef (sendToolResultEffect stringify jsonParse p ic s)"
  using assms
  by (cases "customProps p") (simp_all add: sendToolResultEffect_def Let_def)

lemma sendToolResultEffect_skip:
  assumes "toolOutput p = Some out"
    and "lastSentToolOutputKeyRef x = Some (contentKeyOf stringify out (customProps p))"
  shows "sendToolResultEffect stringify jsonParse p ic x = x"
  using assms by (simp add: sendToolResultEffect_def Let_def)

text \<open>
  C2. The tool-input push is sent again after \<open>initCount\<close> is incremented
  (\<open>tool_input_resent_after_reinit\<close>): its key holds \<open>initCount\<close>. The key of the
  tool-output push holds the content only, so after a tool output has been sent under
  \<open>initCount\<close>, the same output under \<open>initCount + 1\<close> is not transmitted: the effect
  returns the state unchanged.
\<close>

theorem tool_output_suppressed_after_reinit:
  assumes "bridgeRef s" and "ic \<noteq> 0" and "toolOutput p = Some out" and "truthy out"
  shows "sendToolResultEffect stringify jsonParse p (ic + 1)
           (sendToolResultEffect stringify jsonParse p ic s)
         = sendToolResultEffect stringify jsonParse p ic s"
  using sendToolResultEffect_key[OF assms, of stringify jsonParse] assms(3)
  by (intro sendToolResultEffect_skip) auto

theorem tool_output_suppressed_after_reinit_witness:
  "outbox (sendToolResultEffect (\<lambda>j. ''{}'') (\<lambda>x. None)
      \<lparr>toolCallId = ''call-1'', toolInput = None, toolOutput = Some (JObj [(''content'', JArr [])]),
        partialToolInput = None, customProps = None\<rparr> 2
      (sendToolResultEffect (\<lambda>j. ''{}'') (\<lambda>x. None)
        \<lparr>toolCallId = ''call-1'', toolInput = None, toolOutput = Some (JObj [(''content'', JArr [])]),
          partialToolInput = None, customProps = None\<rparr> 1
        \<lparr>bridgeRef = True, toolInputSentRef = None, lastSentPropsRef = None,
          lastSentToolOutputKeyRef = None, pendingFrame = None, outbox = []\<rparr>))
   = [ToolResult (JObj [(''content'', JArr [])])]"
proof -
  have "sendToolResultEffect (\<lambda>j. ''{}'') (\<lambda>x. None)
      \<lparr>toolCallId = ''call-1'', toolInput = None, toolOutput = Some (JObj [(''content'', JArr [])]),
        partialToolInput = None, customProps = None\<rparr> (1 + 1)
      (sendToolResultEffect (\<lambda>j. ''{}'') (\<lambda>x. None)
        \<lparr>toolCallId = ''call-1'', toolInput = None, toolOutput = Some (JObj [(''content'', JArr [])]),
          partialToolInput = None, customProps = None\<rparr> 1
        \<lparr>bridgeRef = True, toolInputSentRef = None, lastSentPropsRef = None,
          lastSentToolOutputKeyRef = None, pendingFrame = None, outbox = []\<rparr>)
    = sendToolResultEffect (\<lambda>j. ''{}'') (\<lambda>x. None)
        \<lparr>toolCallId = ''call-1'', toolInput = None, toolOutput = Some (JObj [(''content'', JArr [])]),
          partialToolInput = None, customProps = None\<rparr> 1
        \<lparr>bridgeRef = True, toolInputSentRef = None, lastSentPropsRef = None,
          lastSentToolOutputKeyRef = None, pendingFrame = None, outbox = []\<rparr>"
    by (rule tool_output_suppressed_after_reinit [where out = "JObj [(''content'', JArr [])]"]) simp_all
  moreover have "(1 + 1 :: nat) = 2" by simp
  ultimately show ?thesis
    by (simp only:) (simp add: sendToolResultEffect_def contentKeyOf_def)
qed

section \<open>Properties of the inbound message handler\<close>

text \<open>
  C1. An inbound window message whose origin is not the origin of the sandbox proxy
  (derived from the \<open>src\<close> of the iframe), or whose source is not the \<open>contentWindow\<close> of
  the iframe, leaves the page as it was: nothing is published on the RPC log, nothing is
  handed to the bridge transport, nothing is posted to the parent. When the \<open>src\<close> has
  no origin the handler throws before any effect.
\<close>

theorem handleMessage_rejects_foreign:
  "(urlOrigin (iframeSrc fr) = Some proxyOrigin
      \<and> (origin ev \<noteq> proxyOrigin \<or> source ev \<noteq> contentWindow fr)
     \<longrightarrow> handleMessage urlOrigin fr now ev s = Inr s)
   \<and> (urlOrigin (iframeSrc fr) = None \<longrightarrow> handleMessage urlOrigin fr now ev s = Inl TypeError)"
  by (auto simp: handleMessage_def)

lemma handleMessage_accepts:
  assumes "urlOrigin (iframeSrc fr) = Some (origin ev)" "source ev = contentWindow fr"
    and "data ev = Some d" "truthy d" "onmessageSet fr"
    and "getProp d ''type'' \<noteq> Some (JStr ''iframe-console-log'')"
  shows "handleMessage urlOrigin fr now ev s
     = Inr (s\<lparr>rpcLog := rpcLog s @ [\<lparr>logServerId = ''widget-'' @ frameToolCallId fr,
                                       logDirection = ''receive'', logTimestamp = now,
                                       logMessage = Some d\<rparr>],
              bridgeInbox := bridgeInbox s @ [d]\<rparr>)"
  using assms by (simp add: handleMessage_def dataProp_def Let_def)

theorem handleMessage_rejects_foreign_witness:
  "handleMessage
      (\<lambda>u. if u = ''https://sandbox.example/proxy.html'' then Some ''https://sandbox.example'' else None)
      \<lparr>iframeSrc = ''https://sandbox.example/proxy.html'', contentWindow = 1, embedded = True,
        onmessageSet = True, frameToolCallId = ''call-1'', frameResourceUri = ''ui://widget''\<rparr>
      1000
      \<lparr>origin = ''https://evil.example'', source = 1,
        data = Some (JObj [(''jsonrpc'', JStr ''2.0''), (''method'', JStr ''ui/notifications/initialized'')])\<rparr>
      \<lparr>rpcLog = [], bridgeInbox = [], parentPosts = []\<rparr>
   = Inr \<lparr>rpcLog = [], bridgeInbox = [], parentPosts = []\<rparr>"
  using handleMessage_rejects_foreign
    [of "\<lambda>u. if u = ''https://sandbox.example/proxy.html'' then Some ''https://sandbox.example'' else None"
        "\<lparr>iframeSrc = ''https://sandbox.example/proxy.html'', contentWindow = 1, embedded = True,
          onmessageSet = True, frameToolCallId = ''call-1'', frameResourceUri = ''ui://widget''\<rparr>"
        "''https://sandbox.example''"
        "\<lparr>origin = ''https://evil.example'', source = 1,
          data = Some (JObj [(''jsonrpc'', JStr ''2.0''), (''method'', JStr ''ui/notifications/initialized'')])\<rparr>"
        1000 "\<lparr>rpcLog = [], bridgeInbox = [], parentPosts = []\<rparr>"]
  by simp


section \<open>Properties of the suggested fix and of the prompt for agents\<close>

lemma replaceFirst_prefix: "startsWith s p \<Longrightarrow> replaceFirst p r s = r @ drop (length p) s"
  by (cases s) (auto simp: startsWith_def)

lemma distinct_setAdd: "distinct xs \<Longrightarrow> distinct (setAdd x xs)"
  by (simp add: setAdd_def)

lemma set_setAdd [simp]: "set (setAdd x xs) = insert x (set xs)"
  by (auto simp: setAdd_def)

lemma distinct_foldl_setAdd: "distinct acc \<Longrightarrow> distinct (foldl (\<lambda>a x. setAdd x a) acc xs)"
  by (induction xs arbitrary: acc) (simp_all add: distinct_setAdd)

lemma distinct_newSet: "distinct (newSet xs)"
  by (simp add: newSet_def distinct_foldl_setAdd)


lemma distinct_addViolation: "distinctSets acc \<Longrightarrow> distinctSets (addViolation urlOrigin acc v)"
  by (auto simp: addViolation_def distinctSets_def Let_def distinct_setAdd split: option.splits)

lemma distinct_foldl_addViolation:
  "distinctSets acc \<Longrightarrow> distinctSets (foldl (addViolation urlOrigin) acc vs)"
  by (induction vs arbitrary: acc) (simp_all add: distinct_addViolation)

lemma connectSet_mono_step: "set (connectSet acc) \<subseteq> set (connectSet (addViolation urlOrigin acc v))"
  by (auto simp: addViolation_def Let_def split: option.splits)

lemma connectSet_mono:
  "set (connectSet acc) \<subseteq> set (connectSet (foldl (addViolation urlOrigin) acc vs))"
proof (induction vs arbitrary: acc)
  case Nil
  then show ?case by simp
next
  case (Cons v vs)
  show ?case using connectSet_mono_step[of acc urlOrigin v] Cons[of "addViolation urlOrigin acc v"]
    by auto
qed

lemma replace_http: "startsWith org ''http://'' \<Longrightarrow> replaceFirst ''http://'' ''ws://'' org = ''ws://'' @ drop 7 org"
proof -
  assume h: "startsWith org ''http://''"
  have "length ''http://'' = 7" by simp
  then show ?thesis using replaceFirst_prefix[OF h, of "''ws://''"] by (simp only:)
qed

lemma replace_https: "startsWith org ''https://'' \<Longrightarrow> replaceFirst ''https://'' ''wss://'' org = ''wss://'' @ drop 8 org"
proof -
  assume h: "startsWith org ''https://''"
  have "length ''https://'' = 8" by simp
  then show ?thesis using replaceFirst_prefix[OF h, of "''wss://''"] by (simp only:)
qed

lemma https_not_http: "startsWith org ''https://'' \<Longrightarrow> \<not> startsWith org ''http://''"
proof -
  assume h: "startsWith org ''https://''"
  have l8: "length ''https://'' = 8" and l7: "length ''http://'' = 7" by simp_all
  have "take 8 org = ''https://''" using h unfolding startsWith_def l8 .
  then have "take 7 (take 8 org) = take 7 ''https://''" by (simp only:)
  then have "take 7 org = ''https:/''" by (simp add: min_def)
  then show ?thesis unfolding startsWith_def l7 by simp
qed

lemma connect_added_step:
  assumes "trim (orEmpty (blockedUri v)) = uri" "uri \<noteq> []" "uri \<noteq> ''(inline)''"
    "\<not> startsWith uri ''blob:''" "\<not> startsWith uri ''data:''"
    "urlOrigin uri = Some org" "org \<noteq> []" "toLowerCase (violationDir v) = ''connect-src''"
  shows "org \<in> set (connectSet (addViolation urlOrigin acc v))"
    and "startsWith org ''http://'' \<Longrightarrow>
           ''ws://'' @ drop 7 org \<in> set (connectSet (addViolation urlOrigin acc v))"
    and "startsWith org ''https://'' \<Longrightarrow>
           ''wss://'' @ drop 8 org \<in> set (connectSet (addViolation urlOrigin acc v))"
proof -
  show "org \<in> set (connectSet (addViolation urlOrigin acc v))"
    using assms by (simp add: addViolation_def Let_def CONNECT_DIRECTIVE_def)
  show "''ws://'' @ drop 7 org \<in> set (connectSet (addViolation urlOrigin acc v))"
    if "startsWith org ''http://''"
    using assms that by (simp add: addViolation_def Let_def CONNECT_DIRECTIVE_def replace_http)
  show "''wss://'' @ drop 8 org \<in> set (connectSet (addViolation urlOrigin acc v))"
    if "startsWith org ''https://''"
    using assms that https_not_http[OF that]
    by (simp add: addViolation_def Let_def CONNECT_DIRECTIVE_def replace_https)
qed

lemma in_foldl_addViolation:
  assumes "v \<in> set vs" "\<And>acc. x \<in> set (connectSet (addViolation urlOrigin acc v))"
  shows "x \<in> set (connectSet (foldl (addViolation urlOrigin) acc vs))"
proof -
  obtain vs1 vs2 where vs: "vs = vs1 @ v # vs2" using assms(1) by (meson split_list)
  have "x \<in> set (connectSet (addViolation urlOrigin (foldl (addViolation urlOrigin) acc vs1) v))"
    using assms(2) .
  then show ?thesis
    unfolding vs using connectSet_mono[of "addViolation urlOrigin (foldl (addViolation urlOrigin) acc vs1) v" urlOrigin vs2]
    by auto
qed

lemma startsWith_trim:
  assumes "startsWith u p" "p \<noteq> []" "\<not> isWhiteSpace (hd p)" "\<not> isWhiteSpace (last p)"
  shows "startsWith (trim u) p"
proof -
  obtain r where u: "u = p @ r" using assms(1) by (metis append_take_drop_id startsWith_def)
  have h: "hd u = hd p" using u assms(2) by simp
  have d1: "dropWhile isWhiteSpace u = u"
    using assms(2,3) h u by (simp add: dropWhile_eq_self_iff)
  have "rev u = rev r @ rev p" using u by simp
  have "dropWhile isWhiteSpace (rev r @ rev p) = dropWhile isWhiteSpace (rev r) @ rev p
      \<or> dropWhile isWhiteSpace (rev r @ rev p) = rev p"
  proof (cases "\<forall>x \<in> set (rev r). isWhiteSpace x")
    case True
    have "hd (rev p) = last p" using assms(2) by (simp add: hd_rev)
    then have "dropWhile isWhiteSpace (rev p) = rev p"
      using assms(4) by (simp add: dropWhile_eq_self_iff)
    moreover have "dropWhile isWhiteSpace (rev r @ rev p) = dropWhile isWhiteSpace (rev p)"
      using True by (intro dropWhile_append2) auto
    ultimately show ?thesis by simp
  next
    case False
    then show ?thesis by (auto simp: dropWhile_append1)
  qed
  then obtain q where "dropWhile isWhiteSpace (rev u) = q @ rev p"
    using \<open>rev u = rev r @ rev p\<close> by (metis append_Nil)
  then have "trim u = p @ rev q" by (simp add: trim_def d1)
  then show ?thesis by (simp add: startsWith_def)
qed

lemma skipped_step:
  assumes "blockedUri v = None \<or> blockedUri v = Some [] \<or> blockedUri v = Some ''(inline)''
     \<or> (\<exists>u. blockedUri v = Some u \<and> (startsWith u ''blob:'' \<or> startsWith u ''data:''))"
  shows "addViolation urlOrigin acc v = acc"
proof -
  let ?uri = "trim (orEmpty (blockedUri v))"
  have "?uri = [] \<or> ?uri = ''(inline)'' \<or> startsWith ?uri ''blob:'' \<or> startsWith ?uri ''data:''"
    using assms
  proof (elim disjE exE conjE)
    assume "blockedUri v = None"
    then show ?thesis by (simp add: orEmpty_def trim_def)
  next
    assume "blockedUri v = Some []"
    then show ?thesis by (simp add: orEmpty_def trim_def)
  next
    assume "blockedUri v = Some ''(inline)''"
    then show ?thesis by (simp add: orEmpty_def trim_def isWhiteSpace_def)
  next
    fix u assume "blockedUri v = Some u" "startsWith u ''blob:''"
    then show ?thesis using startsWith_trim[of u "''blob:''"]
      by (simp add: orEmpty_def isWhiteSpace_def)
  next
    fix u assume "blockedUri v = Some u" "startsWith u ''data:''"
    then show ?thesis using startsWith_trim[of u "''data:''"]
      by (simp add: orEmpty_def isWhiteSpace_def)
  qed
  then show ?thesis by (auto simp: addViolation_def Let_def)
qed


lemma computeSuggestedFix_skip:
  assumes "blockedUri v = None \<or> blockedUri v = Some [] \<or> blockedUri v = Some ''(inline)''
     \<or> (\<exists>u. blockedUri v = Some u \<and> (startsWith u ''blob:'' \<or> startsWith u ''data:''))"
  shows "computeSuggestedFix urlOrigin (vs1 @ v # vs2) declared
       = computeSuggestedFix urlOrigin (vs1 @ vs2) declared"
  by (simp add: computeSuggestedFix_def skipped_step[OF assms])

lemma computeSuggestedFix_sorted:
  "sorted (fixConnectDomains (computeSuggestedFix urlOrigin vs declared))
   \<and> distinct (fixConnectDomains (computeSuggestedFix urlOrigin vs declared))
   \<and> sorted (fixResourceDomains (computeSuggestedFix urlOrigin vs declared))
   \<and> distinct (fixResourceDomains (computeSuggestedFix urlOrigin vs declared))
   \<and> (case fixFrameDomains (computeSuggestedFix urlOrigin vs declared) of
         None \<Rightarrow> True
       | Some fd \<Rightarrow> sorted fd \<and> distinct fd)"
proof -
  let ?start = "\<lparr>connectSet = newSet (case declared of None \<Rightarrow> [] | Some c \<Rightarrow> orNil (connectDomains c)),
             resourceSet = newSet (case declared of None \<Rightarrow> [] | Some c \<Rightarrow> orNil (resourceDomains c)),
             frameSet = newSet (case declared of None \<Rightarrow> [] | Some c \<Rightarrow> orNil (frameDomains c))\<rparr>"
  have "distinctSets ?start" by (simp add: distinctSets_def distinct_newSet)
  then have "distinctSets (foldl (addViolation urlOrigin) ?start vs)"
    by (rule distinct_foldl_addViolation)
  then show ?thesis
    by (simp add: computeSuggestedFix_def Let_def distinctSets_def)
qed

lemma computeSuggestedFix_connect:
  assumes "v \<in> set vs" "trim (orEmpty (blockedUri v)) = uri" "uri \<noteq> []" "uri \<noteq> ''(inline)''"
    "\<not> startsWith uri ''blob:''" "\<not> startsWith uri ''data:''"
    "urlOrigin uri = Some org" "org \<noteq> []" "toLowerCase (violationDir v) = ''connect-src''"
  shows "org \<in> set (fixConnectDomains (computeSuggestedFix urlOrigin vs declared))"
    and "startsWith org ''http://'' \<Longrightarrow>
           ''ws://'' @ drop 7 org \<in> set (fixConnectDomains (computeSuggestedFix urlOrigin vs declared))"
    and "startsWith org ''https://'' \<Longrightarrow>
           ''wss://'' @ drop 8 org \<in> set (fixConnectDomains (computeSuggestedFix urlOrigin vs declared))"
proof -
  note step = connect_added_step[where urlOrigin=urlOrigin and uri=uri and org=org, OF assms(2-9)]
  show "org \<in> set (fixConnectDomains (computeSuggestedFix urlOrigin vs declared))"
    using in_foldl_addViolation[OF assms(1), of org urlOrigin] step(1)
    by (simp add: computeSuggestedFix_def Let_def)
  show "''ws://'' @ drop 7 org \<in> set (fixConnectDomains (computeSuggestedFix urlOrigin vs declared))"
    if "startsWith org ''http://''"
    using in_foldl_addViolation[OF assms(1), of "''ws://'' @ drop 7 org" urlOrigin] step(2)[OF that]
    by (simp add: computeSuggestedFix_def Let_def)
  show "''wss://'' @ drop 8 org \<in> set (fixConnectDomains (computeSuggestedFix urlOrigin vs declared))"
    if "startsWith org ''https://''"
    using in_foldl_addViolation[OF assms(1), of "''wss://'' @ drop 8 org" urlOrigin] step(3)[OF that]
    by (simp add: computeSuggestedFix_def Let_def)
qed

lemma toLowerCase_connect_src: "toLowerCase ''connect-src'' = ''connect-src''"
  by (simp add: toLowerCase_def toLowerChar_def)

lemma trim_example_uri: "trim ''https://api.example.com/x'' = ''https://api.example.com/x''"
  by (simp add: trim_def isWhiteSpace_def)

text \<open>
  C9. In the suggested fix, a \<open>connect-src\<close> violation blocked at
  \<open>https://api.example.com/x\<close> (whose origin is \<open>https://api.example.com\<close>) puts that
  origin and \<open>wss://api.example.com\<close> into \<open>connectDomains\<close>; a \<open>connect-src\<close>
  violation with an \<open>http://\<close> origin puts the origin and its \<open>ws://\<close> form there. A
  violation whose blocked URI is absent, empty, \<open>(inline)\<close>, or starts with \<open>blob:\<close> or
  \<open>data:\<close> is skipped: the result is the same without it. Every list of the result is
  sorted and has no duplicates.
\<close>

theorem suggested_fix_connect_origins:
  "(v \<in> set violations \<and> blockedUri v = Some ''https://api.example.com/x''
      \<and> effectiveDirective v = Some ''connect-src''
      \<and> urlOrigin ''https://api.example.com/x'' = Some ''https://api.example.com''
     \<longrightarrow> ''https://api.example.com'' \<in> set (fixConnectDomains (computeSuggestedFix urlOrigin violations declared))
       \<and> ''wss://api.example.com'' \<in> set (fixConnectDomains (computeSuggestedFix urlOrigin violations declared)))
   \<and> (w \<in> set violations \<and> trim (orEmpty (blockedUri w)) = uri
      \<and> uri \<noteq> [] \<and> uri \<noteq> ''(inline)'' \<and> \<not> startsWith uri ''blob:'' \<and> \<not> startsWith uri ''data:''
      \<and> urlOrigin uri = Some org \<and> startsWith org ''http://''
      \<and> toLowerCase (violationDir w) = ''connect-src''
     \<longrightarrow> org \<in> set (fixConnectDomains (computeSuggestedFix urlOrigin violations declared))
       \<and> ''ws://'' @ drop 7 org \<in> set (fixConnectDomains (computeSuggestedFix urlOrigin violations declared)))
   \<and> (blockedUri sk = None \<or> blockedUri sk = Some [] \<or> blockedUri sk = Some ''(inline)''
        \<or> (\<exists>u. blockedUri sk = Some u \<and> (startsWith u ''blob:'' \<or> startsWith u ''data:''))
     \<longrightarrow> computeSuggestedFix urlOrigin (vs1 @ sk # vs2) declared
         = computeSuggestedFix urlOrigin (vs1 @ vs2) declared)
   \<and> sorted (fixConnectDomains (computeSuggestedFix urlOrigin violations declared))
   \<and> distinct (fixConnectDomains (computeSuggestedFix urlOrigin violations declared))
   \<and> sorted (fixResourceDomains (computeSuggestedFix urlOrigin violations declared))
   \<and> distinct (fixResourceDomains (computeSuggestedFix urlOrigin violations declared))
   \<and> (case fixFrameDomains (computeSuggestedFix urlOrigin violations declared) of
         None \<Rightarrow> True
       | Some fd \<Rightarrow> sorted fd \<and> distinct fd)"
proof -
  let ?R = "computeSuggestedFix urlOrigin violations declared"
  have a: "''https://api.example.com'' \<in> set (fixConnectDomains ?R)
       \<and> ''wss://api.example.com'' \<in> set (fixConnectDomains ?R)"
    if h: "v \<in> set violations" "blockedUri v = Some ''https://api.example.com/x''"
      "effectiveDirective v = Some ''connect-src''"
      "urlOrigin ''https://api.example.com/x'' = Some ''https://api.example.com''"
  proof -
    have t: "trim (orEmpty (blockedUri v)) = ''https://api.example.com/x''"
      using h(2) by (simp only: orEmpty_def option.case trim_example_uri)
    have d: "toLowerCase (violationDir v) = ''connect-src''"
      using h(3) by (simp add: violationDir_def toLowerCase_connect_src)
    have s: "startsWith ''https://api.example.com'' ''https://''"
      by (simp add: startsWith_def)
    note c = computeSuggestedFix_connect[where urlOrigin=urlOrigin and declared=declared
        and uri="''https://api.example.com/x''" and org="''https://api.example.com''", OF h(1) t _ _ _ _ h(4) _ d]
    have "''https://api.example.com'' \<in> set (fixConnectDomains ?R)"
      by (rule c(1)) (simp_all add: startsWith_def)
    moreover have "''wss://'' @ drop 8 ''https://api.example.com'' \<in> set (fixConnectDomains ?R)"
      by (rule c(3)) (simp_all add: startsWith_def)
    ultimately show ?thesis by simp
  qed
  have b: "org \<in> set (fixConnectDomains ?R) \<and> ''ws://'' @ drop 7 org \<in> set (fixConnectDomains ?R)"
    if h: "w \<in> set violations" "trim (orEmpty (blockedUri w)) = uri"
      "uri \<noteq> []" "uri \<noteq> ''(inline)''" "\<not> startsWith uri ''blob:''" "\<not> startsWith uri ''data:''"
      "urlOrigin uri = Some org" "startsWith org ''http://''"
      "toLowerCase (violationDir w) = ''connect-src''"
  proof -
    have ne: "org \<noteq> []" using h(8) by (auto simp: startsWith_def)
    note c = computeSuggestedFix_connect[where urlOrigin=urlOrigin and declared=declared
        and uri=uri and org=org, OF h(1-7) ne h(9)]
    show ?thesis using c(1) c(2)[OF h(8)] by simp
  qed
  show ?thesis
    using a b computeSuggestedFix_skip[of sk urlOrigin vs1 vs2 declared]
      computeSuggestedFix_sorted[of urlOrigin violations declared]
    by blast
qed


theorem suggested_fix_connect_origins_witness:
  "''https://api.example.com'' \<in> set (fixConnectDomains (computeSuggestedFix
      (\<lambda>u. if u = ''https://api.example.com/x'' then Some ''https://api.example.com'' else None)
      [\<lparr>directive = Some ''connect-src'', effectiveDirective = Some ''connect-src'',
         blockedUri = Some ''https://api.example.com/x''\<rparr>] None))
   \<and> ''wss://api.example.com'' \<in> set (fixConnectDomains (computeSuggestedFix
      (\<lambda>u. if u = ''https://api.example.com/x'' then Some ''https://api.example.com'' else None)
      [\<lparr>directive = Some ''connect-src'', effectiveDirective = Some ''connect-src'',
         blockedUri = Some ''https://api.example.com/x''\<rparr>] None))"
  using suggested_fix_connect_origins
    [where v = "\<lparr>directive = Some ''connect-src'', effectiveDirective = Some ''connect-src'',
                   blockedUri = Some ''https://api.example.com/x''\<rparr>"
       and violations = "[\<lparr>directive = Some ''connect-src'', effectiveDirective = Some ''connect-src'',
                   blockedUri = Some ''https://api.example.com/x''\<rparr>]"
       and urlOrigin = "\<lambda>u. if u = ''https://api.example.com/x'' then Some ''https://api.example.com'' else None"
       and declared = None, THEN conjunct1]
  by simp

lemma computeSuggestedFix_example:
  "fixConnectDomains (computeSuggestedFix
      (\<lambda>u. if u = ''https://api.example.com/x'' then Some ''https://api.example.com'' else None)
      [\<lparr>directive = Some ''connect-src'', effectiveDirective = Some ''connect-src'',
         blockedUri = Some ''https://api.example.com/x''\<rparr>] None)
   = [''https://api.example.com'', ''wss://api.example.com'']"
  by (simp add: computeSuggestedFix_def addViolation_def newSet_def setAdd_def orEmpty_def
      trim_def isWhiteSpace_def startsWith_def violationDir_def toLowerCase_def toLowerChar_def
      CONNECT_DIRECTIVE_def Let_def)

lemma joinWith_nonempty: "x \<noteq> [] \<Longrightarrow> joinWith sep (x # xs) \<noteq> []"
  by (cases xs) simp_all

text \<open>
  C10. The guard \<open>cspViolations.length > -1\<close> holds for every list of violations, the
  empty one included: the prompt for agents is always the text built by
  \<open>buildAgentCspPrompt\<close> (never the empty string of the other branch), and its section
  of the dialog is always shown.
\<close>

theorem agent_prompt_unconditional:
  "agentPrompt stringify stringify2 urlOrigin cspMode declaredCsp effectivePolicy cspViolations
     = buildAgentCspPrompt stringify stringify2 declaredCsp effectivePolicy cspViolations
         (suggestedFixFor urlOrigin cspMode cspViolations declaredCsp)
   \<and> agentPrompt stringify stringify2 urlOrigin cspMode declaredCsp effectivePolicy cspViolations \<noteq> []
   \<and> promptSectionShown cspViolations
   \<and> agentPrompt stringify stringify2 urlOrigin cspMode declaredCsp effectivePolicy []
       = buildAgentCspPrompt stringify stringify2 declaredCsp effectivePolicy [] None
   \<and> promptSectionShown []"
proof -
  have g: "int (length cspViolations) > - 1" by simp
  have a: "agentPrompt stringify stringify2 urlOrigin cspMode declaredCsp effectivePolicy cspViolations
     = buildAgentCspPrompt stringify stringify2 declaredCsp effectivePolicy cspViolations
         (suggestedFixFor urlOrigin cspMode cspViolations declaredCsp)" for cspViolations
    by (simp add: agentPrompt_def)
  have b: "buildAgentCspPrompt stringify stringify2 declaredCsp effectivePolicy cspViolations sf \<noteq> []" for sf
    unfolding buildAgentCspPrompt_def append_Cons by (rule joinWith_nonempty) simp
  have c: "promptSectionShown vs" for vs
    by (simp add: promptSectionShown_def)
  have d: "suggestedFixFor urlOrigin cspMode [] declaredCsp = None"
    by (simp add: suggestedFixFor_def)
  show ?thesis using a[of cspViolations] a[of "[]"] b c d by simp
qed

theorem agent_prompt_unconditional_witness:
  "agentPrompt (\<lambda>j. ''[]'') (\<lambda>j. ''{}'') (\<lambda>u. None) ''widget-declared'' None None []
     = buildAgentCspPrompt (\<lambda>j. ''[]'') (\<lambda>j. ''{}'') None None [] None
   \<and> agentPrompt (\<lambda>j. ''[]'') (\<lambda>j. ''{}'') (\<lambda>u. None) ''widget-declared'' None None [] \<noteq> []
   \<and> promptSectionShown []"
  using agent_prompt_unconditional
    [of "\<lambda>j. ''[]''" "\<lambda>j. ''{}''" "\<lambda>u. None" "''widget-declared''" None None "[]"]
  by blast

end
